theory Spec2Isabelle
  imports Complex_Main "HOL-Library.Word"
begin

section \<open>The control-mode driver programs of openarm\_can\<close>

text \<open>
  The repository's two programs, \<^verbatim>\<open>src/apps/query_control_mode.cpp\<close> and
  \<^verbatim>\<open>src/apps/set_control_mode.cpp\<close>, are each a single \<^verbatim>\<open>main\<close>. Both talk to
  the motors through the \<^verbatim>\<open>openarm::can::socket::OpenArm\<close> object and the constants of
  \<^verbatim>\<open>dm_motor_constants.hpp\<close>; neither header is among the files verified here. The
  embedding therefore takes everything those headers decide as a parameter (the record
  \<open>env\<close> below) and models \<^verbatim>\<open>main\<close> as a function from the environment, the command
  line and the operator's input to the exit status and the chronological list of what the
  program did: what it wrote to the console and which library calls it made.
\<close>

subsection \<open>Machine values\<close>

type_synonym uint8 = "8 word"
type_synonym uint32 = "32 word"
type_synonym size_t = "64 word" \<comment> \<open>LP64, the ABI of the Linux hosts SocketCAN runs on\<close>

text \<open>\<^verbatim>\<open>static_cast<int32_t>\<close> of an integer value: reduction modulo \<open>2^32\<close>, read signed.\<close>

definition static_cast_int32 :: "int \<Rightarrow> int" where
  "static_cast_int32 x = sint (word_of_int x :: 32 word)"

text \<open>\<^verbatim>\<open>static_cast<size_t>\<close> of an integer value: reduction modulo \<open>2^64\<close>.\<close>

definition static_cast_size_t :: "int \<Rightarrow> size_t" where
  "static_cast_size_t x = word_of_int x"

text \<open>
  A \<^verbatim>\<open>double\<close> holding a finite value is modelled by the real number it denotes.
  \<^verbatim>\<open>std::round\<close> rounds to the nearest integer, halfway cases away from zero; the
  conversion of a floating value to an integer type truncates towards zero. Both are exact
  on doubles, so no rounding error is lost by the model.
\<close>

definition std_round :: "real \<Rightarrow> real" where
  "std_round x = (if 0 \<le> x then of_int \<lfloor>x + 1 / 2\<rfloor> else - of_int \<lfloor>- x + 1 / 2\<rfloor>)"

definition truncate_towards_zero :: "real \<Rightarrow> int" where
  "truncate_towards_zero x = (if 0 \<le> x then \<lfloor>x\<rfloor> else \<lceil>x\<rceil>)"

subsection \<open>\<^verbatim>\<open>std::to_string\<close> and \<^verbatim>\<open>std::tolower\<close>\<close>

definition digit_char :: "nat \<Rightarrow> char" where
  "digit_char d = ''0123456789'' ! d"

fun to_string_nat :: "nat \<Rightarrow> string" where
  "to_string_nat n =
     (if n < 10 then [digit_char n]
      else to_string_nat (n div 10) @ [digit_char (n mod 10)])"

declare to_string_nat.simps [simp del]

definition to_string :: "int \<Rightarrow> string" where
  "to_string i =
     (if i < 0 then CHR ''-'' # to_string_nat (nat (- i)) else to_string_nat (nat i))"

text \<open>
  \<^verbatim>\<open>std::tolower\<close> in the "C" locale (the programs never call \<^verbatim>\<open>setlocale\<close>): the
  upper-case letters \<^verbatim>\<open>A\<close> to \<^verbatim>\<open>Z\<close> (65 to 90) move to lower case, every other byte
  is left as it is.
\<close>

definition tolower :: "char \<Rightarrow> char" where
  "tolower c =
     (if 65 \<le> (of_char c :: nat) \<and> (of_char c :: nat) \<le> 90
      then char_of ((of_char c :: nat) + 32) else c)"

definition endl :: string where
  "endl = [CHR 0x0A]"

subsection \<open>What the absent headers decide\<close>

text \<open>
  Of the enumerations \<^verbatim>\<open>MotorType\<close> and \<^verbatim>\<open>CallbackMode\<close>, the enumerators the two
  programs name.
\<close>

datatype MotorType = DM8009 | DM4340 | DM4310

datatype CallbackMode = STATE | PARAM

text \<open>
  A motor as the programs see it through \<^verbatim>\<open>get_motors()\<close>: its outbound address
  (\<^verbatim>\<open>get_send_can_id()\<close>) and the value \<^verbatim>\<open>get_param(rid)\<close> returns for each register.
\<close>

record Motor =
  get_send_can_id :: uint32
  get_param :: "int \<Rightarrow> real"

text \<open>
  The environment of a run.
  \<^item> \<open>minMode\<close>, \<open>maxMode\<close>: the integer values of the two sentinel enumerators of
    \<^verbatim>\<open>MotorControlMode\<close>; \<open>CTRL_MODE\<close>: the integer value of \<^verbatim>\<open>RID::CTRL_MODE\<close>;
    \<open>GetMotorControlModeString\<close>: the name of a mode, by the mode's integer value.
  \<^item> \<open>throws\<close>: the outcome of each call into the OpenArm library, by the position of the
    call in the run (the constructor is call 0): \<open>None\<close> when the call returns,
    \<open>Some what\<close> when it throws a \<^verbatim>\<open>std::exception\<close> whose \<^verbatim>\<open>what()\<close> is that text.
  \<^item> \<open>arm_motors\<close>, \<open>gripper_motors\<close>: what \<^verbatim>\<open>get_arm().get_motors()\<close> and
    \<^verbatim>\<open>get_gripper().get_motors()\<close> hold after the given number of library calls.
  \<^item> \<open>uint8_of_unrepresentable\<close>: the byte the platform produces when a floating
    value whose truncation is outside \<open>0..255\<close> is converted to \<^verbatim>\<open>uint8_t\<close>; the language
    leaves that conversion undefined, so nothing is assumed about it.
\<close>

record env =
  minMode :: int
  maxMode :: int
  CTRL_MODE :: int
  GetMotorControlModeString :: "int \<Rightarrow> string"
  throws :: "nat \<Rightarrow> string option"
  arm_motors :: "nat \<Rightarrow> Motor list"
  gripper_motors :: "nat \<Rightarrow> Motor list"
  uint8_of_unrepresentable :: "real \<Rightarrow> uint8"

text \<open>\<^verbatim>\<open>static_cast<uint8_t>\<close> of a \<^verbatim>\<open>double\<close>.\<close>

definition static_cast_uint8 :: "env \<Rightarrow> real \<Rightarrow> uint8" where
  "static_cast_uint8 E x =
     (if - 1 < x \<and> x < 256 then word_of_int (truncate_towards_zero x)
      else uint8_of_unrepresentable E x)"

subsection \<open>Observable behaviour\<close>

text \<open>
  The calls the programs make on the OpenArm object, with their arguments as the
  programs write them: \<open>OpenArm\<close> is the constructor, \<open>Recv_all\<close> carries the number
  passed to \<^verbatim>\<open>recv_all\<close> (its unit is the library's business).
\<close>

datatype call =
    OpenArm string bool
  | Init_arm_motors "MotorType list" "uint32 list" "uint32 list"
  | Init_gripper_motor MotorType uint32 uint32
  | Set_callback_mode_all CallbackMode
  | Query_param_all int
  | Write_param_all int real
  | Recv_all int
  | Disable_all

text \<open>
  An event of a run: text written to \<^verbatim>\<open>std::cout\<close> or \<^verbatim>\<open>std::cerr\<close>, the integer
  that \<^verbatim>\<open>std::cin >> target_control_mode\<close> left in the variable, or a library call
  (recorded when it is made, whether it returns or throws).
\<close>

datatype event = Cout string | Cerr string | Cin int | Call call

record world =
  trace :: "event list"
  ncalls :: nat

text \<open>
  A statement runs in a world and either completes (\<open>None\<close>) or leaves by an exception
  (\<open>Some what\<close>). The exceptions are those the \<^verbatim>\<open>catch\<close> clause of \<^verbatim>\<open>main\<close> names,
  \<^verbatim>\<open>std::exception\<close> and its descendants, and they come from the library calls.
\<close>

type_synonym stmt = "world \<Rightarrow> string option \<times> world"

definition cout :: "string \<Rightarrow> stmt" where
  "cout s w = (None, w\<lparr>trace := trace w @ [Cout s]\<rparr>)"

definition cin :: "int \<Rightarrow> stmt" where
  "cin v w = (None, w\<lparr>trace := trace w @ [Cin v]\<rparr>)"

definition lib :: "env \<Rightarrow> call \<Rightarrow> stmt" where
  "lib E c w =
     (throws E (ncalls w), w\<lparr>trace := trace w @ [Call c], ncalls := Suc (ncalls w)\<rparr>)"

text \<open>A sequence of statements: the first exception ends it.\<close>

fun block :: "stmt list \<Rightarrow> stmt" where
  "block [] w = (None, w)"
| "block (s # ss) w =
     (case s w of
        (None, w') \<Rightarrow> block ss w'
      | (Some what, w') \<Rightarrow> (Some what, w'))"

text \<open>A range-based \<^verbatim>\<open>for\<close> over the motors the library holds at that moment.\<close>

definition for_motors :: "(nat \<Rightarrow> Motor list) \<Rightarrow> (Motor \<Rightarrow> stmt) \<Rightarrow> stmt" where
  "for_motors get_motors body w = block (map body (get_motors (ncalls w))) w"

text \<open>
  \<^verbatim>\<open>try { ... } catch (const std::exception& e) { std::cerr << ...; return -1; } return 0;\<close>
\<close>

definition try_catch :: "stmt \<Rightarrow> int \<times> event list" where
  "try_catch body =
     (case body \<lparr>trace = [], ncalls = 0\<rparr> of
        (None, w) \<Rightarrow> (0, trace w)
      | (Some what, w) \<Rightarrow> (- 1, trace w @ [Cerr (''Error: '' @ what @ endl)]))"

subsection \<open>The code common to both programs\<close>

text \<open>
  The command line is \<open>argv0\<close> (the program's name, \<^verbatim>\<open>argv[0]\<close>) and the list \<open>args\<close>
  of the arguments after it, so that \<^verbatim>\<open>argc\<close> is \<open>length args + 1\<close> and \<^verbatim>\<open>argv[k]\<close> is
  \<open>args ! (k - 1)\<close>.
\<close>

definition usage :: "string \<Rightarrow> string" where
  "usage argv0 =
     ''Usage: '' @ argv0 @ '' '' @
     '' <can interface> <optional fd mode: true/false. default: false>'' @ endl"

definition bad_argc :: "string list \<Rightarrow> bool" where
  "bad_argc args = (length args + 1 \<noteq> 2 \<and> length args + 1 \<noteq> 3)"

definition can_fd :: "string list \<Rightarrow> bool" where
  "can_fd args =
     (if length args + 1 = 3 then map tolower (args ! 1) = ''true'' else False)"

text \<open>
  The loop \<^verbatim>\<open>for (size_t i {static_cast<size_t>(minMode) + 1}; i <
  static_cast<size_t>(maxMode); ++i)\<close> and the line its body prints.
\<close>

definition mode_line :: "env \<Rightarrow> int \<Rightarrow> string" where
  "mode_line E i = to_string i @ '':'' @ GetMotorControlModeString E i @ [CHR 0x0A]"

function available_modes :: "env \<Rightarrow> size_t \<Rightarrow> size_t \<Rightarrow> string list" where
  "available_modes E i hi =
     (if i < hi then mode_line E (uint i) # available_modes E (i + 1) hi else [])"
  by pat_completeness auto
termination
proof (relation "measure (\<lambda>(E, i, hi). unat hi - unat i)")
  show "wf (measure (\<lambda>(E, i, hi). unat hi - unat i))"
    by simp
next
  fix E :: env and i hi :: size_t
  assume lt: "i < hi"
  then have "unat hi - unat (i + 1) < unat hi - unat i"
    by unat_arith
  then show "((E, i + 1, hi), (E, i, hi)) \<in> measure (\<lambda>(E, i, hi). unat hi - unat i)"
    by simp
qed

declare available_modes.simps [simp del]

definition print_available_modes :: "env \<Rightarrow> stmt" where
  "print_available_modes E =
     block (cout (''Available modes:'' @ [CHR 0x0A]) #
            map cout (available_modes E (static_cast_size_t (minMode E) + 1)
                                        (static_cast_size_t (maxMode E))))"

definition motor_types :: "MotorType list" where
  "motor_types = [DM8009, DM8009, DM4340, DM4340, DM4310, DM4310, DM4310]"

definition send_can_ids :: "uint32 list" where
  "send_can_ids = [0x01, 0x02, 0x03, 0x04, 0x05, 0x06, 0x07]"

definition recv_can_ids :: "uint32 list" where
  "recv_can_ids = [0x11, 0x12, 0x13, 0x14, 0x15, 0x16, 0x17]"

text \<open>
  From the banner to \<^verbatim>\<open>init_gripper_motor\<close>: the first lines of the \<^verbatim>\<open>try\<close> block, the
  same text in both files.
\<close>

definition initialize :: "env \<Rightarrow> string list \<Rightarrow> stmt" where
  "initialize E args =
     block
      [cout (''=== Query Control Mode ==='' @ endl),
       cout (''Query robot motor control mode'' @ endl),
       print_available_modes E,
       cout (''Initializing OpenArm CAN...'' @ endl),
       cout (''Interface: '' @ args ! 0 @ endl),
       cout (''Flexible Data Mode: '' @ (if can_fd args then ''true'' else ''false'') @ endl),
       lib E (OpenArm (args ! 0) (can_fd args)),
       lib E (Init_arm_motors motor_types send_can_ids recv_can_ids),
       cout (''Initializing gripper...'' @ endl),
       lib E (Init_gripper_motor DM4310 0x08 0x18)]"

text \<open>The line printed for one motor, from its 8-bit control-mode code.\<close>

definition motor_line :: "env \<Rightarrow> string \<Rightarrow> Motor \<Rightarrow> uint8 \<Rightarrow> string" where
  "motor_line E label motor control_mode_code =
     label @ '' Motor: '' @ to_string (uint (get_send_can_id motor)) @
     '' Motor Control Mode: '' @ to_string (uint control_mode_code) @ '' - '' @
     GetMotorControlModeString E (uint control_mode_code) @ endl"

text \<open>The last statements of both \<^verbatim>\<open>try\<close> blocks ("Turn off motor").\<close>

definition turn_off_motor :: "env \<Rightarrow> stmt list" where
  "turn_off_motor E =
     [lib E (Set_callback_mode_all STATE),
      lib E Disable_all,
      lib E (Recv_all 1000)]"

subsection \<open>\<^verbatim>\<open>query_control_mode.cpp\<close>\<close>

definition control_mode_code_query :: "env \<Rightarrow> Motor \<Rightarrow> uint8" where
  "control_mode_code_query E motor =
     static_cast_uint8 E (std_round (get_param motor (CTRL_MODE E)))"

definition query_control_mode_body :: "env \<Rightarrow> string list \<Rightarrow> stmt" where
  "query_control_mode_body E args =
     block
      ([initialize E args,
        lib E (Set_callback_mode_all PARAM),
        lib E (Query_param_all (CTRL_MODE E)),
        lib E (Recv_all 2000),
        for_motors (arm_motors E)
          (\<lambda>motor. cout (motor_line E ''Arm'' motor (control_mode_code_query E motor))),
        for_motors (gripper_motors E)
          (\<lambda>motor. cout (motor_line E ''Gripper'' motor (control_mode_code_query E motor)))]
       @ turn_off_motor E)"

text \<open>The result of \<^verbatim>\<open>main\<close>: the value it returns and the events of the run.\<close>

definition query_control_mode_main :: "env \<Rightarrow> string \<Rightarrow> string list \<Rightarrow> int \<times> event list" where
  "query_control_mode_main E argv0 args =
     (if bad_argc args then (1, [Cerr (usage argv0)])
      else try_catch (query_control_mode_body E args))"

subsection \<open>\<^verbatim>\<open>set_control_mode.cpp\<close>\<close>

definition control_mode_code_set :: "env \<Rightarrow> Motor \<Rightarrow> uint8" where
  "control_mode_code_set E motor = static_cast_uint8 E (get_param motor (CTRL_MODE E))"

definition print_control_mode :: "env \<Rightarrow> stmt" where
  "print_control_mode E =
     block
      [lib E (Set_callback_mode_all PARAM),
       lib E (Query_param_all (CTRL_MODE E)),
       lib E (Recv_all 2000),
       for_motors (arm_motors E)
         (\<lambda>motor. cout (motor_line E ''Arm'' motor (control_mode_code_set E motor))),
       for_motors (gripper_motors E)
         (\<lambda>motor. cout (motor_line E ''Gripper'' motor (control_mode_code_set E motor)))]"

definition min_mode_value :: "env \<Rightarrow> int" where
  "min_mode_value E = static_cast_int32 (minMode E)"

definition max_mode_value :: "env \<Rightarrow> int" where
  "max_mode_value E = static_cast_int32 (maxMode E)"

definition target_control_mode_valid :: "env \<Rightarrow> int \<Rightarrow> bool" where
  "target_control_mode_valid E target_control_mode =
     (min_mode_value E < target_control_mode \<and> target_control_mode < max_mode_value E)"

text \<open>
  \<open>target_control_mode\<close> is the value of the variable of that name after
  \<^verbatim>\<open>std::cin >> target_control_mode\<close>: the integer the operator entered (0 when the
  input is not a number).
\<close>

definition set_control_mode_body :: "env \<Rightarrow> string list \<Rightarrow> int \<Rightarrow> stmt" where
  "set_control_mode_body E args target_control_mode =
     block
      ([initialize E args,
        cout (''=== Previous control modes === '' @ [CHR 0x0A]),
        print_control_mode E,
        cout (''Target Control Mode (int - '' @ to_string (min_mode_value E) @
              '' < value < '' @ to_string (max_mode_value E) @ ''): ''),
        cin target_control_mode,
        (if target_control_mode_valid E target_control_mode
         then block
           [cout (''Setting control modes to: '' @ to_string target_control_mode @
                  GetMotorControlModeString E target_control_mode),
            lib E (Write_param_all (CTRL_MODE E) (of_int target_control_mode)),
            lib E (Recv_all 2000)]
         else cout (''Invalid control mode value received: '' @
                    to_string target_control_mode @ [CHR 0x0A])),
        cout (''=== Current control modes === '' @ [CHR 0x0A]),
        print_control_mode E,
        cout (''Disabling motors'' @ [CHR 0x0A])]
       @ turn_off_motor E)"

definition set_control_mode_main ::
  "env \<Rightarrow> string \<Rightarrow> string list \<Rightarrow> int \<Rightarrow> int \<times> event list" where
  "set_control_mode_main E argv0 args target_control_mode =
     (if bad_argc args then (1, [Cerr (usage argv0)])
      else try_catch (set_control_mode_body E args target_control_mode))"

subsection \<open>Observing a run\<close>

text \<open>The library calls of a run, in the order they were made.\<close>

fun calls_of :: "event list \<Rightarrow> call list" where
  "calls_of [] = []"
| "calls_of (Call c # es) = c # calls_of es"
| "calls_of (Cout s # es) = calls_of es"
| "calls_of (Cerr s # es) = calls_of es"
| "calls_of (Cin v # es) = calls_of es"

text \<open>
  A straight-line sequence of library calls \<open>cs\<close>, started when \<open>i\<close> calls have already
  been made: \<open>made\<close> is the part of it that is really called (everything up to and
  including the first call that throws), \<open>thrown\<close> the exception that ends it, if any.
\<close>

fun made :: "env \<Rightarrow> nat \<Rightarrow> call list \<Rightarrow> call list" where
  "made E i [] = []"
| "made E i (c # cs) = c # (case throws E i of None \<Rightarrow> made E (Suc i) cs | Some what \<Rightarrow> [])"

fun thrown :: "env \<Rightarrow> nat \<Rightarrow> call list \<Rightarrow> string option" where
  "thrown E i [] = None"
| "thrown E i (c # cs) = (case throws E i of None \<Rightarrow> thrown E (Suc i) cs | Some what \<Rightarrow> Some what)"

text \<open>
  A statement implements the call sequence \<open>cs\<close> when, in every world, it makes exactly
  the calls \<open>made\<close> of \<open>cs\<close>, adds events to the trace without touching what is there,
  and leaves by the exception \<open>thrown\<close>.
\<close>

definition implements :: "env \<Rightarrow> stmt \<Rightarrow> call list \<Rightarrow> bool" where
  "implements E s cs =
     (\<forall>w. fst (s w) = thrown E (ncalls w) cs \<and>
          ncalls (snd (s w)) = ncalls w + length (made E (ncalls w) cs) \<and>
          (\<exists>tr. trace (snd (s w)) = trace w @ tr \<and> calls_of tr = made E (ncalls w) cs))"

text \<open>The call sequences the two programs are written to make.\<close>

definition initialize_calls :: "string list \<Rightarrow> call list" where
  "initialize_calls args =
     [OpenArm (args ! 0) (can_fd args),
      Init_arm_motors motor_types send_can_ids recv_can_ids,
      Init_gripper_motor DM4310 0x08 0x18]"

definition query_calls :: "env \<Rightarrow> call list" where
  "query_calls E =
     [Set_callback_mode_all PARAM, Query_param_all (CTRL_MODE E), Recv_all 2000]"

definition turn_off_calls :: "call list" where
  "turn_off_calls = [Set_callback_mode_all STATE, Disable_all, Recv_all 1000]"

definition query_control_mode_calls :: "env \<Rightarrow> string list \<Rightarrow> call list" where
  "query_control_mode_calls E args = initialize_calls args @ query_calls E @ turn_off_calls"

definition write_calls :: "env \<Rightarrow> int \<Rightarrow> call list" where
  "write_calls E v = [Write_param_all (CTRL_MODE E) (of_int v), Recv_all 2000]"

definition set_control_mode_calls :: "env \<Rightarrow> string list \<Rightarrow> int \<Rightarrow> call list" where
  "set_control_mode_calls E args v =
     initialize_calls args @ query_calls E @
     (if target_control_mode_valid E v then write_calls E v else []) @
     query_calls E @ turn_off_calls"

text \<open>The lines a run prints for the gripper motors, in the order they were printed.\<close>

fun gripper_lines :: "event list \<Rightarrow> string list" where
  "gripper_lines [] = []"
| "gripper_lines (Cout s # es) =
     (if take 14 s = ''Gripper Motor:'' then s # gripper_lines es else gripper_lines es)"
| "gripper_lines (e # es) = gripper_lines es"

text \<open>
  Modelled from the spec: the callback-mode flags of the registered motors, which the
  library keeps (\<^verbatim>\<open>set_callback_mode_all\<close> and the motor registry are not among the
  sources). By section 4.2 of the specification, setting the mode of all motors in the
  registry is a pure state mutation that always succeeds and changes the flag of every
  registered motor; by section 3 a motor is created once, when its group is initialized,
  and only the mode switch changes its flag. \<open>callback_modes d cs\<close> is the list of the
  flags after the calls \<open>cs\<close> have returned, where \<open>d\<close> is the flag a motor is created
  with (the specification leaves it open).
\<close>

fun register_or_set :: "CallbackMode \<Rightarrow> CallbackMode list \<Rightarrow> call \<Rightarrow> CallbackMode list" where
  "register_or_set d ms (Init_arm_motors types sends recvs) = ms @ replicate (length types) d"
| "register_or_set d ms (Init_gripper_motor type send recv) = ms @ [d]"
| "register_or_set d ms (Set_callback_mode_all m) = map (\<lambda>old. m) ms"
| "register_or_set d ms c = ms"

definition callback_modes :: "CallbackMode \<Rightarrow> call list \<Rightarrow> CallbackMode list" where
  "callback_modes d cs = foldl (register_or_set d) [] cs"

text \<open>The calls that register motors with the library.\<close>

fun is_registration :: "call \<Rightarrow> bool" where
  "is_registration (Init_arm_motors types sends recvs) = True"
| "is_registration (Init_gripper_motor type send recv) = True"
| "is_registration c = False"

subsection \<open>An example environment\<close>

text \<open>
  A concrete environment, used to evaluate the programs: five enumerators from
  \<open>minMode = 0\<close> to \<open>maxMode = 5\<close>, the register number 10, seven arm motors that report
  the value 1 and a gripper motor that reports 1.6. Its only parameter is the outcome of
  the library calls.
\<close>

definition example_mode_name :: "int \<Rightarrow> string" where
  "example_mode_name i =
     (if i = 1 then ''MIT'' else if i = 2 then ''POS_VEL'' else if i = 3 then ''VEL''
      else if i = 4 then ''POS_FORCE'' else ''UNKNOWN'')"

definition example_env :: "(nat \<Rightarrow> string option) \<Rightarrow> env" where
  "example_env outcome =
     \<lparr>minMode = 0, maxMode = 5, CTRL_MODE = 10,
      GetMotorControlModeString = example_mode_name,
      throws = outcome,
      arm_motors = (\<lambda>k. map (\<lambda>a. \<lparr>get_send_can_id = a, get_param = (\<lambda>rid. 1)\<rparr>) send_can_ids),
      gripper_motors = (\<lambda>k. [\<lparr>get_send_can_id = 0x08, get_param = (\<lambda>rid. 8 / 5)\<rparr>]),
      uint8_of_unrepresentable = (\<lambda>x. 0)\<rparr>"

definition no_fault :: "nat \<Rightarrow> string option" where
  "no_fault k = None"

definition fault_at :: "nat \<Rightarrow> string \<Rightarrow> nat \<Rightarrow> string option" where
  "fault_at n what k = (if k = n then Some what else None)"

text \<open>
  The same environment with another value stored for the gripper's registers.
\<close>

definition reporting :: "real \<Rightarrow> env \<Rightarrow> env" where
  "reporting x E =
     E\<lparr>gripper_motors := (\<lambda>k. [\<lparr>get_send_can_id = 0x08, get_param = (\<lambda>rid. x)\<rparr>])\<rparr>"

subsection \<open>The main operation and the cleanup\<close>

text \<open>
  Each program's call sequence is its main operation (everything up to the last query)
  followed by the three cleanup calls of \<open>turn_off_calls\<close>.
\<close>

definition query_main_operation :: "env \<Rightarrow> string list \<Rightarrow> call list" where
  "query_main_operation E args = initialize_calls args @ query_calls E"

definition set_main_operation :: "env \<Rightarrow> string list \<Rightarrow> int \<Rightarrow> call list" where
  "set_main_operation E args v =
     initialize_calls args @ query_calls E @
     (if target_control_mode_valid E v then write_calls E v else []) @ query_calls E"

section \<open>Sequences of library calls\<close>

lemma calls_of_append: "calls_of (xs @ ys) = calls_of xs @ calls_of ys"
  by (induction xs rule: calls_of.induct) simp_all

lemma calls_of_map_Cout: "calls_of (map (\<lambda>x. Cout (f x)) xs) = []"
  by (induction xs) simp_all

lemma made_all: "thrown E i cs = None \<Longrightarrow> made E i cs = cs"
  by (induction cs arbitrary: i) (auto split: option.splits)

lemma made_append:
  "made E i (a @ b) = (if thrown E i a = None then a @ made E (i + length a) b else made E i a)"
  by (induction a arbitrary: i) (auto split: option.splits)

lemma thrown_append:
  "thrown E i (a @ b) = (case thrown E i a of None \<Rightarrow> thrown E (i + length a) b | Some what \<Rightarrow> Some what)"
  by (induction a arbitrary: i) (auto split: option.splits)

lemma made_prefix: "\<exists>n. made E i cs = take n cs"
proof (induction cs arbitrary: i)
  case Nil
  show ?case by simp
next
  case (Cons c cs)
  show ?case
  proof (cases "throws E i")
    case None
    from Cons [of "Suc i"] obtain n where "made E (Suc i) cs = take n cs" ..
    with None have "made E i (c # cs) = take (Suc n) (c # cs)" by simp
    then show ?thesis ..
  next
    case (Some what)
    then have "made E i (c # cs) = take 1 (c # cs)" by simp
    then show ?thesis ..
  qed
qed

lemma set_made_subset: "set (made E i cs) \<subseteq> set cs"
proof -
  obtain n where "made E i cs = take n cs" using made_prefix by blast
  then show ?thesis by (simp add: set_take_subset)
qed

lemma made_neq_thrown: "made E i cs \<noteq> cs \<Longrightarrow> thrown E i cs \<noteq> None"
  using made_all by blast

lemma filter_made_none:
  assumes "\<forall>c\<in>set cs. \<not> P c"
  shows "filter P (made E i cs) = []"
  using assms set_made_subset [of E i cs] by (auto simp: filter_empty_conv)

lemma thrown_None_iff: "thrown E i cs = None \<longleftrightarrow> (\<forall>k<length cs. throws E (i + k) = None)"
proof (induction cs arbitrary: i)
  case Nil
  show ?case by simp
next
  case (Cons c cs)
  have "(\<forall>k<Suc (length cs). throws E (i + k) = None) \<longleftrightarrow>
        throws E i = None \<and> (\<forall>k<length cs. throws E (Suc i + k) = None)"
    by (auto simp: less_Suc_eq_0_disj)
  with Cons [of "Suc i"] show ?case
    by (auto split: option.splits)
qed

lemma first_throw:
  "k < length cs \<Longrightarrow> \<forall>j<k. throws E (i + j) = None \<Longrightarrow> throws E (i + k) = Some what \<Longrightarrow>
   thrown E i cs = Some what \<and> made E i cs = take (Suc k) cs"
proof (induction cs arbitrary: i k)
  case Nil
  then show ?case by simp
next
  case (Cons c cs)
  show ?case
  proof (cases k)
    case 0
    with Cons.prems show ?thesis by simp
  next
    case (Suc k')
    from Cons.prems Suc have i0: "throws E i = None" by auto
    from Cons.prems Suc have "\<forall>j<k'. throws E (Suc i + j) = None"
      by (metis add_Suc_shift Suc_less_eq)
    moreover from Cons.prems Suc have "throws E (Suc i + k') = Some what" "k' < length cs"
      by simp_all
    ultimately have "thrown E (Suc i) cs = Some what \<and> made E (Suc i) cs = take (Suc k') cs"
      using Cons.IH by blast
    with i0 Suc show ?thesis by simp
  qed
qed

lemma first_throw0:
  "k < length cs \<Longrightarrow> \<forall>j<k. throws E j = None \<Longrightarrow> throws E k = Some what \<Longrightarrow>
   thrown E 0 cs = Some what \<and> made E 0 cs = take (Suc k) cs"
  using first_throw [of k cs E 0 what] by simp

lemma implements_lib: "implements E (lib E c) [c]"
  by (simp add: implements_def lib_def split: option.splits)

lemma implements_cout: "implements E (cout s) []"
  by (simp add: implements_def cout_def)

lemma implements_cin: "implements E (cin v) []"
  by (simp add: implements_def cin_def)

lemma implements_nil: "implements E (block []) []"
  by (simp add: implements_def)

lemma implements_cons:
  assumes s: "implements E s a" and ss: "implements E (block ss) b"
  shows "implements E (block (s # ss)) (a @ b)"
  unfolding implements_def
proof (intro allI)
  fix w
  obtain r w' where sw: "s w = (r, w')" by (cases "s w")
  from s [unfolded implements_def, rule_format, of w] sw
  obtain tr where r: "r = thrown E (ncalls w) a"
    and n: "ncalls w' = ncalls w + length (made E (ncalls w) a)"
    and tr: "trace w' = trace w @ tr" "calls_of tr = made E (ncalls w) a"
    by auto
  show "fst (block (s # ss) w) = thrown E (ncalls w) (a @ b) \<and>
        ncalls (snd (block (s # ss) w)) = ncalls w + length (made E (ncalls w) (a @ b)) \<and>
        (\<exists>tr. trace (snd (block (s # ss) w)) = trace w @ tr \<and>
              calls_of tr = made E (ncalls w) (a @ b))"
  proof (cases r)
    case None
    with r have ta: "thrown E (ncalls w) a = None" by simp
    then have ma: "made E (ncalls w) a = a" by (rule made_all)
    from ss [unfolded implements_def, rule_format, of w']
    obtain tr' where r': "fst (block ss w') = thrown E (ncalls w') b"
      and n': "ncalls (snd (block ss w')) = ncalls w' + length (made E (ncalls w') b)"
      and tr': "trace (snd (block ss w')) = trace w' @ tr'" "calls_of tr' = made E (ncalls w') b"
      by auto
    from sw None have blk: "block (s # ss) w = block ss w'" by simp
    have "trace (snd (block ss w')) = trace w @ (tr @ tr')"
      using tr tr' by simp
    moreover have "calls_of (tr @ tr') = made E (ncalls w) (a @ b)"
      using tr tr' ta ma n by (simp add: calls_of_append made_append)
    ultimately have "\<exists>t. trace (snd (block ss w')) = trace w @ t \<and>
        calls_of t = made E (ncalls w) (a @ b)" by blast
    with blk r' n' n ta ma show ?thesis
      by (simp add: thrown_append made_append)
  next
    case (Some what)
    with sw have blk: "block (s # ss) w = (Some what, w')" by simp
    from Some r have ta: "thrown E (ncalls w) a = Some what" by simp
    with blk n tr show ?thesis
      by (simp add: thrown_append made_append)
  qed
qed

lemma implements_for_motors:
  "implements E (for_motors g (\<lambda>motor. cout (f motor))) []"
proof -
  have "block (map (\<lambda>motor. cout (f motor)) ms) w =
        (None, w\<lparr>trace := trace w @ map (\<lambda>motor. Cout (f motor)) ms\<rparr>)" for ms w
    by (induction ms arbitrary: w) (simp_all add: cout_def)
  then show ?thesis
    by (simp add: implements_def for_motors_def calls_of_map_Cout)
qed

lemma implements_silent:
  "implements E s [] \<Longrightarrow> implements E (block ss) b \<Longrightarrow> implements E (block (s # ss)) b"
  using implements_cons [of E s "[]" ss b] by simp

lemma implements_call:
  "implements E (block ss) b \<Longrightarrow> implements E (block (lib E c # ss)) (c # b)"
  using implements_cons [of E "lib E c" "[c]" ss b] by (simp add: implements_lib)

lemma implements_if:
  "implements E s a \<Longrightarrow> implements E t b \<Longrightarrow>
   implements E (if c then s else t) (if c then a else b)"
  by simp

lemma implements_map_cout: "implements E (block (map cout xs)) []"
proof (induction xs)
  case Nil
  show ?case
    unfolding list.map by (rule implements_nil)
next
  case (Cons x xs)
  then show ?case
    unfolding list.map by (rule implements_silent [OF implements_cout])
qed

lemma implements_print_available_modes: "implements E (print_available_modes E) []"
  unfolding print_available_modes_def
  by (rule implements_silent [OF implements_cout implements_map_cout])

lemmas implements_steps =
  implements_cout implements_cin implements_for_motors implements_print_available_modes

lemma implements_ok:
  assumes "implements E s cs" and "\<forall>k<length cs. throws E (ncalls w + k) = None"
  shows "fst (s w) = None" and "ncalls (snd (s w)) = ncalls w + length cs"
proof -
  from assms(2) have t: "thrown E (ncalls w) cs = None"
    by (simp add: thrown_None_iff)
  with assms(1) show "fst (s w) = None"
    by (simp add: implements_def)
  from t have "made E (ncalls w) cs = cs" by (rule made_all)
  with assms(1) show "ncalls (snd (s w)) = ncalls w + length cs"
    by (simp add: implements_def)
qed

lemma implements_grows:
  "implements E s cs \<Longrightarrow> \<exists>tr. trace (snd (s w)) = trace w @ tr"
  unfolding implements_def by blast

lemma block_cons_ok: "fst (s w) = None \<Longrightarrow> block (s # ss) w = block ss (snd (s w))"
  by (cases "s w") simp

lemma block_prefix_grows:
  assumes "\<exists>tr. trace (snd (s w)) = P @ tr" and "implements E (block ss) b"
  shows "\<exists>tr. trace (snd (block (s # ss) w)) = P @ tr"
proof -
  obtain r w' where sw: "s w = (r, w')" by (cases "s w")
  with assms(1) obtain tr where tr: "trace w' = P @ tr" by auto
  show ?thesis
  proof (cases r)
    case None
    from implements_grows [OF assms(2), of w'] obtain tr' where
      "trace (snd (block ss w')) = trace w' @ tr'" ..
    with sw None tr show ?thesis by simp
  next
    case (Some what)
    with sw tr show ?thesis by simp
  qed
qed

lemma block_map_cout:
  "block (map cout xs) w = (None, w\<lparr>trace := trace w @ map Cout xs\<rparr>)"
  by (induction xs arbitrary: w) (simp_all add: cout_def)

lemma for_motors_cout:
  "for_motors g (\<lambda>motor. cout (f motor)) w =
     (None, w\<lparr>trace := trace w @ map (\<lambda>motor. Cout (f motor)) (g (ncalls w))\<rparr>)"
proof -
  have "block (map (\<lambda>motor. cout (f motor)) ms) w =
        (None, w\<lparr>trace := trace w @ map (\<lambda>motor. Cout (f motor)) ms\<rparr>)" for ms w
    by (induction ms arbitrary: w) (simp_all add: cout_def)
  then show ?thesis by (simp add: for_motors_def)
qed

lemma print_available_modes_eq:
  "print_available_modes E w =
     (None, w\<lparr>trace := trace w @ Cout (''Available modes:'' @ [CHR 0x0A]) #
        map Cout (available_modes E (static_cast_size_t (minMode E) + 1)
                                    (static_cast_size_t (maxMode E)))\<rparr>)"
  by (simp add: print_available_modes_def cout_def block_map_cout)

lemma try_catch_run:
  assumes "implements E body cs"
  shows "fst (try_catch body) = (if thrown E 0 cs = None then 0 else - 1)"
    and "calls_of (snd (try_catch body)) = made E 0 cs"
    and "thrown E 0 cs = Some what \<Longrightarrow>
         \<exists>tr. snd (try_catch body) = tr @ [Cerr (''Error: '' @ what @ endl)]"
proof -
  let ?w = "\<lparr>trace = [], ncalls = 0\<rparr>"
  obtain r w' where b: "body ?w = (r, w')" by (cases "body ?w")
  from assms [unfolded implements_def, rule_format, of ?w] b
  obtain tr where r: "r = thrown E 0 cs" and tr: "trace w' = tr" "calls_of tr = made E 0 cs"
    by auto
  show "fst (try_catch body) = (if thrown E 0 cs = None then 0 else - 1)"
    using b r by (auto simp: try_catch_def split: option.splits)
  show "calls_of (snd (try_catch body)) = made E 0 cs"
    using b r tr by (auto simp: try_catch_def calls_of_append split: option.splits)
  show "\<exists>tr. snd (try_catch body) = tr @ [Cerr (''Error: '' @ what @ endl)]"
    if "thrown E 0 cs = Some what"
    using b r that by (auto simp: try_catch_def split: option.splits)
qed

lemma try_catch_trace:
  "\<exists>tr. snd (try_catch body) = trace (snd (body \<lparr>trace = [], ncalls = 0\<rparr>)) @ tr"
  by (cases "body \<lparr>trace = [], ncalls = 0\<rparr>") (auto simp: try_catch_def split: option.splits)

section \<open>The call sequences of the two programs\<close>

lemma implements_initialize: "implements E (initialize E args) (initialize_calls args)"
  unfolding initialize_def initialize_calls_def
  by (rule implements_call | rule implements_nil
      | (rule implements_silent, (rule implements_steps)))+

lemma implements_initialize_rest:
  "implements E
     (block [cout a, cout b, lib E (OpenArm i f), lib E (Init_arm_motors t s r), cout c,
             lib E (Init_gripper_motor m x y)])
     [OpenArm i f, Init_arm_motors t s r, Init_gripper_motor m x y]"
  by (rule implements_call | rule implements_nil
      | (rule implements_silent, (rule implements_steps)))+

lemma implements_print_control_mode: "implements E (print_control_mode E) (query_calls E)"
  unfolding print_control_mode_def query_calls_def
  by (rule implements_call | rule implements_nil
      | (rule implements_silent, (rule implements_steps)))+

lemma implements_turn_off_motor: "implements E (block (turn_off_motor E)) turn_off_calls"
  unfolding turn_off_motor_def turn_off_calls_def
  by (rule implements_call | rule implements_nil)+

lemma implements_query_rest:
  "implements E
     (block ([lib E (Set_callback_mode_all PARAM), lib E (Query_param_all (CTRL_MODE E)),
              lib E (Recv_all 2000),
              for_motors g (\<lambda>motor. cout (f motor)),
              for_motors g' (\<lambda>motor. cout (f' motor))] @ turn_off_motor E))
     (query_calls E @ turn_off_calls)"
  unfolding append_Cons append_Nil query_calls_def
  apply (rule implements_call | (rule implements_silent, (rule implements_steps)))+
  apply (rule implements_turn_off_motor)
  done

lemma implements_query_body:
  "implements E (query_control_mode_body E args) (query_control_mode_calls E args)"
  unfolding query_control_mode_body_def query_control_mode_calls_def append_Cons append_Nil
            query_calls_def
  apply (rule implements_cons [OF implements_initialize])
  apply (rule implements_call | (rule implements_silent, (rule implements_steps)))+
  apply (rule implements_turn_off_motor)
  done

lemma implements_write:
  "implements E
     (block [cout s, lib E (Write_param_all (CTRL_MODE E) (of_int v)), lib E (Recv_all 2000)])
     (write_calls E v)"
  unfolding write_calls_def
  by (rule implements_call | rule implements_nil
      | (rule implements_silent, (rule implements_steps)))+

lemma implements_set_rest:
  "implements E
     (block ([cout a, print_control_mode E, cout b] @ turn_off_motor E))
     (query_calls E @ turn_off_calls)"
  unfolding append_Cons append_Nil
  apply (rule implements_silent [OF implements_cout])
  apply (rule implements_cons [OF implements_print_control_mode])
  apply (rule implements_silent [OF implements_cout])
  apply (rule implements_turn_off_motor)
  done

lemma implements_set_after_initialize:
  "implements E
     (block ([cout a, print_control_mode E, cout b, cin v,
              (if c then block [cout d, lib E (Write_param_all (CTRL_MODE E) (of_int v)),
                                lib E (Recv_all 2000)]
               else cout e),
              cout f, print_control_mode E, cout g] @ turn_off_motor E))
     (query_calls E @ (if c then write_calls E v else []) @ query_calls E @ turn_off_calls)"
  unfolding append_Cons append_Nil
  apply (rule implements_silent [OF implements_cout])
  apply (rule implements_cons [OF implements_print_control_mode])
  apply (rule implements_silent [OF implements_cout])
  apply (rule implements_silent [OF implements_cin])
  apply (rule implements_cons [OF implements_if [OF implements_write implements_cout]])
  apply (rule implements_silent [OF implements_cout])
  apply (rule implements_cons [OF implements_print_control_mode])
  apply (rule implements_silent [OF implements_cout])
  apply (rule implements_turn_off_motor)
  done

lemma implements_set_body:
  "implements E (set_control_mode_body E args v) (set_control_mode_calls E args v)"
  unfolding set_control_mode_body_def set_control_mode_calls_def append_Cons append_Nil
  apply (rule implements_cons [OF implements_initialize])
  apply (rule implements_silent [OF implements_cout])
  apply (rule implements_cons [OF implements_print_control_mode])
  apply (rule implements_silent [OF implements_cout])
  apply (rule implements_silent [OF implements_cin])
  apply (rule implements_cons [OF implements_if [OF implements_write implements_cout]])
  apply (rule implements_silent [OF implements_cout])
  apply (rule implements_cons [OF implements_print_control_mode])
  apply (rule implements_silent [OF implements_cout])
  apply (rule implements_turn_off_motor)
  done

lemma query_main_run:
  assumes "\<not> bad_argc args"
  shows "fst (query_control_mode_main E prog args) =
           (if thrown E 0 (query_control_mode_calls E args) = None then 0 else - 1)"
    and "calls_of (snd (query_control_mode_main E prog args)) =
           made E 0 (query_control_mode_calls E args)"
    and "thrown E 0 (query_control_mode_calls E args) = Some what \<Longrightarrow>
           \<exists>tr. snd (query_control_mode_main E prog args) = tr @ [Cerr (''Error: '' @ what @ endl)]"
  using assms try_catch_run [OF implements_query_body, of E args]
  by (simp_all add: query_control_mode_main_def)

lemma set_main_run:
  assumes "\<not> bad_argc args"
  shows "fst (set_control_mode_main E prog args v) =
           (if thrown E 0 (set_control_mode_calls E args v) = None then 0 else - 1)"
    and "calls_of (snd (set_control_mode_main E prog args v)) =
           made E 0 (set_control_mode_calls E args v)"
    and "thrown E 0 (set_control_mode_calls E args v) = Some what \<Longrightarrow>
           \<exists>tr. snd (set_control_mode_main E prog args v) = tr @ [Cerr (''Error: '' @ what @ endl)]"
  using assms try_catch_run [OF implements_set_body, of E args v]
  by (simp_all add: set_control_mode_main_def)

lemma run_of_plan:
  assumes r: "(r, plan) = (query_control_mode_main E prog args, query_control_mode_calls E args) \<or>
              (r, plan) = (set_control_mode_main E prog args v, set_control_mode_calls E args v)"
    and args: "\<not> bad_argc args"
  shows "fst r = (if thrown E 0 plan = None then 0 else - 1)"
    and "calls_of (snd r) = made E 0 plan"
    and "thrown E 0 plan = Some what \<Longrightarrow> \<exists>tr. snd r = tr @ [Cerr (''Error: '' @ what @ endl)]"
  using r query_main_run [OF args, where E = E and prog = prog]
    set_main_run [OF args, where E = E and prog = prog and v = v]
  by auto

lemma bad_argc_query [simp]: "bad_argc args \<Longrightarrow> query_control_mode_main E prog args = (1, [Cerr (usage prog)])"
  by (simp add: query_control_mode_main_def)

lemma bad_argc_set [simp]: "bad_argc args \<Longrightarrow> set_control_mode_main E prog args v = (1, [Cerr (usage prog)])"
  by (simp add: set_control_mode_main_def)

lemma query_calls_split:
  "query_control_mode_calls E args = query_main_operation E args @ turn_off_calls"
  by (simp add: query_control_mode_calls_def query_main_operation_def)

lemma set_calls_split:
  "set_control_mode_calls E args v = set_main_operation E args v @ turn_off_calls"
  by (simp add: set_control_mode_calls_def set_main_operation_def)

lemma plan_after_initialize:
  assumes "(r, plan) = (query_control_mode_main E prog args, query_control_mode_calls E args) \<or>
           (r, plan) = (set_control_mode_main E prog args v, set_control_mode_calls E args v)"
  shows "\<exists>rest. plan = initialize_calls args @ rest \<and> (\<forall>c\<in>set rest. \<not> is_registration c)"
  using assms
  by (auto simp: query_control_mode_calls_def set_control_mode_calls_def query_calls_def
      turn_off_calls_def write_calls_def)

section \<open>The programs on the example environment\<close>

lemmas run_simps =
  set_control_mode_main_def query_control_mode_main_def bad_argc_def try_catch_def
  set_control_mode_body_def query_control_mode_body_def initialize_def print_control_mode_def
  turn_off_motor_def lib_def cout_def cin_def for_motors_cout print_available_modes_eq
  calls_of_append calls_of_map_Cout

lemma example_env_simps:
  "minMode (example_env outcome) = 0" "maxMode (example_env outcome) = 5"
  "CTRL_MODE (example_env outcome) = 10" "throws (example_env outcome) = outcome"
  by (simp_all add: example_env_def)

lemma example_args: "\<not> bad_argc [''can0'']" "\<not> bad_argc [''can0'', ''TRUE'']" "bad_argc []"
  by (simp_all add: bad_argc_def)

lemma example_query_calls:
  "calls_of (snd (query_control_mode_main (example_env no_fault) prog [''can0''])) =
     [OpenArm ''can0'' False, Init_arm_motors motor_types send_can_ids recv_can_ids,
      Init_gripper_motor DM4310 8 24, Set_callback_mode_all PARAM, Query_param_all 10,
      Recv_all 2000, Set_callback_mode_all STATE, Disable_all, Recv_all 1000]"
  by (simp add: run_simps example_env_simps no_fault_def can_fd_def)

section \<open>Validation of the operator's input\<close>

lemma int32_id: "- (2 ^ 31) \<le> x \<Longrightarrow> x < 2 ^ 31 \<Longrightarrow> static_cast_int32 x = x"
  unfolding static_cast_int32_def
  by (simp add: signed_of_int signed_take_bit_int_eq_self)

lemma prompt_reached:
  assumes "\<forall>k<6. throws E k = None"
  shows "made E 0 ((initialize_calls args @ query_calls E) @ rest) =
         initialize_calls args @ query_calls E @ made E 6 rest"
proof -
  have len: "length (initialize_calls args @ query_calls E) = 6"
    by (simp add: initialize_calls_def query_calls_def)
  have "thrown E 0 (initialize_calls args @ query_calls E) = None"
    unfolding thrown_None_iff len using assms by simp
  then show ?thesis
    unfolding made_append len by simp
qed

lemma valid_iff:
  assumes "- (2 ^ 31) \<le> minMode E" "minMode E < 2 ^ 31"
    and "- (2 ^ 31) \<le> maxMode E" "maxMode E < 2 ^ 31"
  shows "target_control_mode_valid E v \<longleftrightarrow> minMode E < v \<and> v < maxMode E"
  using assms
  by (simp add: target_control_mode_valid_def min_mode_value_def max_mode_value_def int32_id)

lemma no_write_outside:
  "Write_param_all rid x \<notin> set (initialize_calls args @ query_calls E)"
  "Write_param_all rid x \<notin> set (query_calls E @ turn_off_calls)"
  by (simp_all add: initialize_calls_def query_calls_def turn_off_calls_def)

text \<open>
  Claim C1. In \<^verbatim>\<open>set_control_mode\<close>, once the operator has been asked (the six library
  calls before the prompt have returned), \<^verbatim>\<open>write_param_all\<close> is called if and only if
  the entered value \<open>v\<close> satisfies \<open>minMode < v < maxMode\<close>, strictly on both sides; when it
  is called, it is called on the control-mode register with \<open>v\<close>. The two sentinels
  themselves are rejected, and \<open>minMode + 1\<close> and \<open>maxMode - 1\<close> are accepted (there is a
  value between the sentinels as soon as \<open>minMode + 1 < maxMode\<close>). The sentinels are
  assumed to fit the \<^verbatim>\<open>int32_t\<close> the program converts them to.
\<close>

theorem write_issued_iff_strictly_inside:
  assumes args: "\<not> bad_argc args"
    and range: "- (2 ^ 31) \<le> minMode E" "minMode E < 2 ^ 31"
               "- (2 ^ 31) \<le> maxMode E" "maxMode E < 2 ^ 31"
    and prompt: "\<forall>k<6. throws E k = None"
  shows "(Write_param_all (CTRL_MODE E) (of_int v)
            \<in> set (calls_of (snd (set_control_mode_main E prog args v)))
          \<longleftrightarrow> minMode E < v \<and> v < maxMode E) \<and>
         ((\<exists>rid x. Write_param_all rid x
            \<in> set (calls_of (snd (set_control_mode_main E prog args v))))
          \<longleftrightarrow> minMode E < v \<and> v < maxMode E) \<and>
         \<not> target_control_mode_valid E (minMode E) \<and>
         \<not> target_control_mode_valid E (maxMode E) \<and>
         (minMode E + 1 < maxMode E \<longrightarrow>
            target_control_mode_valid E (minMode E + 1) \<and>
            target_control_mode_valid E (maxMode E - 1))"
proof -
  let ?cs = "calls_of (snd (set_control_mode_main E prog args v))"
  let ?valid = "minMode E < v \<and> v < maxMode E"
  note valid = valid_iff [OF range]
  have cs: "?cs = initialize_calls args @ query_calls E @
              made E 6 ((if target_control_mode_valid E v then write_calls E v else []) @
                        query_calls E @ turn_off_calls)"
    using set_main_run(2) [OF args, of E prog v] prompt_reached [OF prompt]
    by (simp add: set_control_mode_calls_def)
  have yes: "Write_param_all (CTRL_MODE E) (of_int v) \<in> set ?cs" if ?valid
    using that cs valid [of v] by (simp add: write_calls_def)
  have no: "Write_param_all rid x \<notin> set ?cs" if "\<not> ?valid" for rid x
  proof -
    from that cs valid [of v]
    have "set ?cs \<subseteq> set (initialize_calls args @ query_calls E) \<union>
                    set (query_calls E @ turn_off_calls)"
      using set_made_subset [of E 6 "query_calls E @ turn_off_calls"] by auto
    with no_write_outside(1) [of rid x args E] no_write_outside(2) [of rid x E]
    show ?thesis by blast
  qed
  from yes no have "Write_param_all (CTRL_MODE E) (of_int v) \<in> set ?cs \<longleftrightarrow> ?valid"
    by blast
  moreover from yes no have "(\<exists>rid x. Write_param_all rid x \<in> set ?cs) \<longleftrightarrow> ?valid"
    by blast
  moreover have "\<not> target_control_mode_valid E (minMode E)"
    "\<not> target_control_mode_valid E (maxMode E)"
    by (simp_all add: valid)
  moreover have "target_control_mode_valid E (minMode E + 1) \<and>
                 target_control_mode_valid E (maxMode E - 1)" if "minMode E + 1 < maxMode E"
    using that by (simp add: valid)
  ultimately show ?thesis by blast
qed

theorem write_issued_iff_strictly_inside_witness:
  "Write_param_all 10 1 \<in> set (calls_of (snd
      (set_control_mode_main (example_env no_fault) ''set_control_mode'' [''can0''] 1))) \<and>
   Write_param_all 10 4 \<in> set (calls_of (snd
      (set_control_mode_main (example_env no_fault) ''set_control_mode'' [''can0''] 4))) \<and>
   Write_param_all 10 0 \<notin> set (calls_of (snd
      (set_control_mode_main (example_env no_fault) ''set_control_mode'' [''can0''] 0))) \<and>
   Write_param_all 10 5 \<notin> set (calls_of (snd
      (set_control_mode_main (example_env no_fault) ''set_control_mode'' [''can0''] 5)))"
proof -
  let ?E = "example_env no_fault"
  have args: "\<not> bad_argc [''can0'']"
    by (simp add: bad_argc_def)
  have range: "- (2 ^ 31) \<le> minMode ?E" "minMode ?E < 2 ^ 31"
    "- (2 ^ 31) \<le> maxMode ?E" "maxMode ?E < 2 ^ 31"
    by (simp_all add: example_env_def)
  have prompt: "\<forall>k<6. throws ?E k = None"
    by (simp add: example_env_def no_fault_def)
  note inst = write_issued_iff_strictly_inside [OF args range prompt, where prog = "''set_control_mode''"]
  have E: "CTRL_MODE ?E = 10" "minMode ?E = 0" "maxMode ?E = 5"
    by (simp_all add: example_env_def)
  show ?thesis
    using inst [where v = 1] inst [where v = 4] inst [where v = 0] inst [where v = 5]
    by (simp add: E)
qed

section \<open>What an invalid value skips\<close>

lemma invalid_reported:
  assumes args: "\<not> bad_argc args"
    and prompt: "\<forall>k<6. throws E k = None"
    and invalid: "\<not> target_control_mode_valid E v"
  shows "Cout (''Invalid control mode value received: '' @ to_string v @ [CHR 0x0A])
           \<in> set (snd (set_control_mode_main E prog args v))"
proof -
  let ?msg = "''Invalid control mode value received: '' @ to_string v @ [CHR 0x0A]"
  let ?w0 = "\<lparr>trace = [], ncalls = 0\<rparr>"
  define s2 where "s2 = cout (''=== Previous control modes === '' @ [CHR 0x0A])"
  define s4 where "s4 = cout (''Target Control Mode (int - '' @ to_string (min_mode_value E) @
              '' < value < '' @ to_string (max_mode_value E) @ ''): '')"
  define rest where "rest = [cout (''=== Current control modes === '' @ [CHR 0x0A]),
        print_control_mode E, cout (''Disabling motors'' @ [CHR 0x0A])] @ turn_off_motor E"
  define w1 where "w1 = snd (initialize E args ?w0)"
  define w2 where "w2 = snd (s2 w1)"
  define w3 where "w3 = snd (print_control_mode E w2)"
  define w4 where "w4 = snd (s4 w3)"
  define w5 where "w5 = snd (cin v w4)"
  define w6 where "w6 = snd (cout ?msg w5)"
  have body: "set_control_mode_body E args v =
      block (initialize E args # s2 # print_control_mode E # s4 # cin v # cout ?msg # rest)"
    using invalid by (simp add: set_control_mode_body_def s2_def s4_def rest_def)
  have "\<forall>k<length (initialize_calls args). throws E (ncalls ?w0 + k) = None"
    using prompt by (simp add: initialize_calls_def)
  from implements_ok [OF implements_initialize this]
  have 1: "fst (initialize E args ?w0) = None" and n1: "ncalls w1 = 3"
    by (simp_all add: w1_def initialize_calls_def)
  have 2: "fst (s2 w1) = None" and n2: "ncalls w2 = 3"
    using n1 by (simp_all add: s2_def w2_def cout_def)
  have "\<forall>k<length (query_calls E). throws E (ncalls w2 + k) = None"
    using prompt n2 by (simp add: query_calls_def)
  from implements_ok [OF implements_print_control_mode this]
  have 3: "fst (print_control_mode E w2) = None"
    by simp
  have 4: "fst (s4 w3) = None" "fst (cin v w4) = None" "fst (cout ?msg w5) = None"
    by (simp_all add: s4_def cout_def cin_def)
  have "set_control_mode_body E args v ?w0 = block rest w6"
    unfolding body
    using 1 2 3 4
    by (simp only: block_cons_ok w1_def [symmetric] w2_def [symmetric] w3_def [symmetric]
        w4_def [symmetric] w5_def [symmetric] w6_def [symmetric])
  moreover have "\<exists>tr. trace (snd (block rest w6)) = trace w6 @ tr"
    unfolding rest_def by (rule implements_grows [OF implements_set_rest])
  moreover have "trace w6 = trace w5 @ [Cout ?msg]"
    by (simp add: w6_def cout_def)
  ultimately have "Cout ?msg \<in> set (trace (snd (set_control_mode_body E args v ?w0)))"
    by auto
  with try_catch_trace [of "set_control_mode_body E args v"] args show ?thesis
    by (auto simp: set_control_mode_main_def)
qed

text \<open>
  Claim C2, as amended. In a run of \<^verbatim>\<open>set_control_mode\<close> in which no library call
  throws: when the entered value is invalid, the program calls neither
  \<^verbatim>\<open>write_param_all\<close> nor the \<^verbatim>\<open>recv_all(2000)\<close> that follows it and prints the rejected
  value, but it does run the second query sequence; when the value is valid, it calls
  \<^verbatim>\<open>write_param_all\<close> on the control-mode register with that value, then
  \<^verbatim>\<open>recv_all(2000)\<close>, then the second query sequence. Both runs end with the cleanup.
\<close>

theorem invalid_value_skips_only_the_write:
  assumes args: "\<not> bad_argc args"
    and quiet: "\<forall>k. throws E k = None"
  shows "(\<not> target_control_mode_valid E v \<longrightarrow>
            calls_of (snd (set_control_mode_main E prog args v)) =
              initialize_calls args @
              [Set_callback_mode_all PARAM, Query_param_all (CTRL_MODE E), Recv_all 2000] @
              [Set_callback_mode_all PARAM, Query_param_all (CTRL_MODE E), Recv_all 2000] @
              [Set_callback_mode_all STATE, Disable_all, Recv_all 1000] \<and>
            Cout (''Invalid control mode value received: '' @ to_string v @ [CHR 0x0A])
              \<in> set (snd (set_control_mode_main E prog args v))) \<and>
         (target_control_mode_valid E v \<longrightarrow>
            calls_of (snd (set_control_mode_main E prog args v)) =
              initialize_calls args @
              [Set_callback_mode_all PARAM, Query_param_all (CTRL_MODE E), Recv_all 2000] @
              [Write_param_all (CTRL_MODE E) (of_int v), Recv_all 2000] @
              [Set_callback_mode_all PARAM, Query_param_all (CTRL_MODE E), Recv_all 2000] @
              [Set_callback_mode_all STATE, Disable_all, Recv_all 1000])"
proof -
  from quiet have "thrown E 0 (set_control_mode_calls E args v) = None"
    by (simp add: thrown_None_iff)
  then have "made E 0 (set_control_mode_calls E args v) = set_control_mode_calls E args v"
    by (rule made_all)
  with set_main_run(2) [OF args, where E = E and prog = prog and v = v]
  have cs: "calls_of (snd (set_control_mode_main E prog args v)) = set_control_mode_calls E args v"
    by simp
  from quiet have "\<forall>k<6. throws E k = None" by simp
  from invalid_reported [OF args this] cs show ?thesis
    by (simp add: set_control_mode_calls_def query_calls_def write_calls_def turn_off_calls_def)
qed

theorem invalid_value_skips_only_the_write_witness:
  "calls_of (snd (set_control_mode_main (example_env no_fault) ''set_control_mode'' [''can0''] 5)) =
     [OpenArm ''can0'' False, Init_arm_motors motor_types send_can_ids recv_can_ids,
      Init_gripper_motor DM4310 8 24,
      Set_callback_mode_all PARAM, Query_param_all 10, Recv_all 2000,
      Set_callback_mode_all PARAM, Query_param_all 10, Recv_all 2000,
      Set_callback_mode_all STATE, Disable_all, Recv_all 1000] \<and>
   Cout ''Invalid control mode value received: 5\<newline>''
     \<in> set (snd (set_control_mode_main (example_env no_fault) ''set_control_mode'' [''can0''] 5)) \<and>
   calls_of (snd (set_control_mode_main (example_env no_fault) ''set_control_mode'' [''can0''] 2)) =
     [OpenArm ''can0'' False, Init_arm_motors motor_types send_can_ids recv_can_ids,
      Init_gripper_motor DM4310 8 24,
      Set_callback_mode_all PARAM, Query_param_all 10, Recv_all 2000,
      Write_param_all 10 2, Recv_all 2000,
      Set_callback_mode_all PARAM, Query_param_all 10, Recv_all 2000,
      Set_callback_mode_all STATE, Disable_all, Recv_all 1000]"
proof -
  let ?E = "example_env no_fault"
  have quiet: "\<forall>k. throws ?E k = None"
    by (simp add: example_env_simps no_fault_def)
  have valid: "\<not> target_control_mode_valid ?E 5" "target_control_mode_valid ?E 2"
    by (simp_all add: target_control_mode_valid_def min_mode_value_def max_mode_value_def
        static_cast_int32_def example_env_simps)
  have s5: "to_string 5 = ''5''"
    by (simp add: to_string_def to_string_nat.simps digit_char_def)
  note inst = invalid_value_skips_only_the_write [OF example_args(1) quiet,
      where prog = "''set_control_mode''"]
  show ?thesis
    using inst [where v = 5] inst [where v = 2] valid
    by (simp add: example_env_simps initialize_calls_def can_fd_def s5)
qed

text \<open>
  The second query is not skipped: with the sentinel \<open>minMode = 0\<close> entered, which is
  invalid, the run of \<^verbatim>\<open>set_control_mode\<close> on the example environment calls
  \<^verbatim>\<open>query_param_all\<close> twice.
\<close>

theorem invalid_value_second_query_counterexample:
  "\<not> target_control_mode_valid (example_env no_fault) 0 \<and>
   count_list
     (calls_of (snd (set_control_mode_main (example_env no_fault) ''set_control_mode'' [''can0''] 0)))
     (Query_param_all 10) = 2"
proof -
  have inv: "\<not> target_control_mode_valid (example_env no_fault) 0"
    by (simp add: target_control_mode_valid_def min_mode_value_def static_cast_int32_def
        example_env_def)
  have E: "throws (example_env no_fault) = (\<lambda>k. None)" "CTRL_MODE (example_env no_fault) = 10"
    by (simp_all add: example_env_def no_fault_def fun_eq_iff)
  show ?thesis
    using inv by (simp add: run_simps E)
qed

section \<open>Parameter mode before every query\<close>

lemma bracketed_made:
  assumes plan: "\<And>j. j < length p \<Longrightarrow> p ! j = Query_param_all rid \<Longrightarrow>
             0 < j \<and> p ! (j - 1) = Set_callback_mode_all PARAM \<and>
             Suc j < length p \<and> p ! Suc j = Recv_all 2000"
    and i: "i < length (made E 0 p)" "made E 0 p ! i = Query_param_all rid"
  shows "0 < i \<and> made E 0 p ! (i - 1) = Set_callback_mode_all PARAM \<and>
         (Suc i < length (made E 0 p) \<and> made E 0 p ! Suc i = Recv_all 2000 \<or>
          Suc i = length (made E 0 p) \<and> thrown E 0 p \<noteq> None)"
proof -
  obtain n where n: "made E 0 p = take n p"
    using made_prefix by blast
  from i n have lt: "i < n" "i < length p" and at: "p ! i = Query_param_all rid"
    by simp_all
  from plan [OF lt(2) at] have pos: "0 < i"
    and before: "p ! (i - 1) = Set_callback_mode_all PARAM"
    and more: "Suc i < length p" and after: "p ! Suc i = Recv_all 2000"
    by simp_all
  from lt have "take n p ! (i - 1) = p ! (i - 1)"
    by simp
  with before n have b: "made E 0 p ! (i - 1) = Set_callback_mode_all PARAM"
    by simp
  show ?thesis
  proof (cases "Suc i < n")
    case True
    with more after n have "Suc i < length (made E 0 p) \<and> made E 0 p ! Suc i = Recv_all 2000"
      by simp
    with pos b show ?thesis by blast
  next
    case False
    with lt have "n = Suc i" by simp
    with more n have len: "length (made E 0 p) = Suc i"
      by simp
    with more have "made E 0 p \<noteq> p" by auto
    then have "thrown E 0 p \<noteq> None" by (rule made_neq_thrown)
    with pos b len show ?thesis by simp
  qed
qed

lemma nth_is_query:
  "(c # cs) ! j = Query_param_all rid \<longleftrightarrow>
   (j = 0 \<and> c = Query_param_all rid) \<or> (0 < j \<and> cs ! (j - 1) = Query_param_all rid)"
  by (cases j) simp_all

lemma query_calls_bracketed:
  assumes "j < length (query_control_mode_calls E args)"
    and "query_control_mode_calls E args ! j = Query_param_all rid"
  shows "0 < j \<and> query_control_mode_calls E args ! (j - 1) = Set_callback_mode_all PARAM \<and>
         Suc j < length (query_control_mode_calls E args) \<and>
         query_control_mode_calls E args ! Suc j = Recv_all 2000"
proof -
  have "j < 9" using assms(1)
    by (simp add: query_control_mode_calls_def initialize_calls_def query_calls_def
        turn_off_calls_def)
  then have "j = 0 \<or> j = 1 \<or> j = 2 \<or> j = 3 \<or> j = 4 \<or> j = 5 \<or> j = 6 \<or> j = 7 \<or> j = 8"
    by arith
  then show ?thesis
    using assms(2)
    by (elim disjE) (simp_all add: query_control_mode_calls_def initialize_calls_def query_calls_def
        turn_off_calls_def)
qed

lemma set_calls_bracketed:
  assumes "j < length (set_control_mode_calls E args v)"
    and "set_control_mode_calls E args v ! j = Query_param_all rid"
  shows "0 < j \<and> set_control_mode_calls E args v ! (j - 1) = Set_callback_mode_all PARAM \<and>
         Suc j < length (set_control_mode_calls E args v) \<and>
         set_control_mode_calls E args v ! Suc j = Recv_all 2000"
proof (cases "target_control_mode_valid E v")
  case True
  with assms(1) have "j < 14"
    by (simp add: set_control_mode_calls_def initialize_calls_def query_calls_def
        turn_off_calls_def write_calls_def)
  then have "j = 0 \<or> j = 1 \<or> j = 2 \<or> j = 3 \<or> j = 4 \<or> j = 5 \<or> j = 6 \<or> j = 7 \<or> j = 8 \<or> j = 9 \<or> j = 10 \<or> j = 11 \<or> j = 12 \<or> j = 13"
    by arith
  then show ?thesis
    using assms(2) True
    by (elim disjE) (simp_all add: set_control_mode_calls_def initialize_calls_def query_calls_def
        turn_off_calls_def write_calls_def)
next
  case False
  with assms(1) have "j < 12"
    by (simp add: set_control_mode_calls_def initialize_calls_def query_calls_def
        turn_off_calls_def write_calls_def)
  then have "j = 0 \<or> j = 1 \<or> j = 2 \<or> j = 3 \<or> j = 4 \<or> j = 5 \<or> j = 6 \<or> j = 7 \<or> j = 8 \<or> j = 9 \<or> j = 10 \<or> j = 11"
    by arith
  then show ?thesis
    using assms(2) False
    by (elim disjE) (simp_all add: set_control_mode_calls_def initialize_calls_def query_calls_def
        turn_off_calls_def write_calls_def)
qed

lemma query_calls_modes:
  assumes "j < length (query_control_mode_calls E args)"
    and "query_control_mode_calls E args ! j = Query_param_all rid"
  shows "callback_modes d (take j (query_control_mode_calls E args)) = replicate 8 PARAM"
proof -
  have "j < 9" using assms(1)
    by (simp add: query_control_mode_calls_def initialize_calls_def query_calls_def
        turn_off_calls_def)
  then have "j = 0 \<or> j = 1 \<or> j = 2 \<or> j = 3 \<or> j = 4 \<or> j = 5 \<or> j = 6 \<or> j = 7 \<or> j = 8"
    by arith
  then show ?thesis
    using assms(2)
    by (elim disjE) (simp_all add: query_control_mode_calls_def initialize_calls_def query_calls_def
        turn_off_calls_def callback_modes_def motor_types_def numeral_eq_Suc)
qed

lemma set_calls_modes:
  assumes "j < length (set_control_mode_calls E args v)"
    and "set_control_mode_calls E args v ! j = Query_param_all rid"
  shows "callback_modes d (take j (set_control_mode_calls E args v)) = replicate 8 PARAM"
proof (cases "target_control_mode_valid E v")
  case True
  with assms(1) have "j < 14"
    by (simp add: set_control_mode_calls_def initialize_calls_def query_calls_def
        turn_off_calls_def write_calls_def)
  then have "j = 0 \<or> j = 1 \<or> j = 2 \<or> j = 3 \<or> j = 4 \<or> j = 5 \<or> j = 6 \<or> j = 7 \<or> j = 8 \<or> j = 9 \<or> j = 10 \<or> j = 11 \<or> j = 12 \<or> j = 13"
    by arith
  then show ?thesis
    using assms(2) True
    by (elim disjE) (simp_all add: set_control_mode_calls_def initialize_calls_def query_calls_def
        turn_off_calls_def write_calls_def callback_modes_def motor_types_def numeral_eq_Suc)
next
  case False
  with assms(1) have "j < 12"
    by (simp add: set_control_mode_calls_def initialize_calls_def query_calls_def
        turn_off_calls_def write_calls_def)
  then have "j = 0 \<or> j = 1 \<or> j = 2 \<or> j = 3 \<or> j = 4 \<or> j = 5 \<or> j = 6 \<or> j = 7 \<or> j = 8 \<or> j = 9 \<or> j = 10 \<or> j = 11"
    by arith
  then show ?thesis
    using assms(2) False
    by (elim disjE) (simp_all add: set_control_mode_calls_def initialize_calls_def query_calls_def
        turn_off_calls_def write_calls_def callback_modes_def motor_types_def numeral_eq_Suc)
qed

lemma modes_made:
  assumes plan: "\<And>j. j < length p \<Longrightarrow> p ! j = Query_param_all rid \<Longrightarrow>
             callback_modes d (take j p) = replicate 8 PARAM"
    and i: "i < length (made E 0 p)" "made E 0 p ! i = Query_param_all rid"
  shows "callback_modes d (take i (made E 0 p)) = replicate 8 PARAM"
proof -
  obtain n where n: "made E 0 p = take n p"
    using made_prefix by blast
  from i n have lt: "i < n" "i < length p" and at: "p ! i = Query_param_all rid"
    by simp_all
  from lt have "take i (take n p) = take i p"
    by (simp add: min_def)
  with plan [OF lt(2) at] n show ?thesis by simp
qed

text \<open>
  Claim C3. In every run of either program, whatever the library calls do, each call of
  \<^verbatim>\<open>query_param_all\<close> comes directly after a call of
  \<^verbatim>\<open>set_callback_mode_all(PARAM)\<close>, which has returned (an exception would have ended
  the run). At that moment all eight registered motors have the flag \<open>PARAM\<close>, whatever
  flag they were created with: the query is never sent while a motor is in \<open>STATE\<close> mode.
  The query is directly followed by \<^verbatim>\<open>recv_all(2000)\<close>, unless the query itself threw,
  in which case it is the last call of the run and the exit status is \<open>-1\<close>.
\<close>

theorem query_only_after_param_mode:
  assumes r: "r = query_control_mode_main E prog args \<or> r = set_control_mode_main E prog args v"
    and i: "i < length (calls_of (snd r))" "calls_of (snd r) ! i = Query_param_all rid"
  shows "0 < i \<and> calls_of (snd r) ! (i - 1) = Set_callback_mode_all PARAM \<and>
         callback_modes d (take i (calls_of (snd r))) = replicate 8 PARAM \<and>
         (Suc i < length (calls_of (snd r)) \<and> calls_of (snd r) ! Suc i = Recv_all 2000 \<or>
          Suc i = length (calls_of (snd r)) \<and> fst r = - 1)"
proof (cases "bad_argc args")
  case True
  with r i show ?thesis by auto
next
  case False
  from r show ?thesis
  proof
    assume q: "r = query_control_mode_main E prog args"
    let ?p = "query_control_mode_calls E args"
    have cs: "calls_of (snd r) = made E 0 ?p"
      and st: "fst r = (if thrown E 0 ?p = None then 0 else - 1)"
      using query_main_run [OF False, where E = E and prog = prog] q by simp_all
    from bracketed_made [of ?p rid i E, OF query_calls_bracketed]
      modes_made [of ?p rid d i E, OF query_calls_modes] i cs st
    show ?thesis by auto
  next
    assume s: "r = set_control_mode_main E prog args v"
    let ?p = "set_control_mode_calls E args v"
    have cs: "calls_of (snd r) = made E 0 ?p"
      and st: "fst r = (if thrown E 0 ?p = None then 0 else - 1)"
      using set_main_run [OF False, where E = E and prog = prog and v = v] s by simp_all
    from bracketed_made [of ?p rid i E, OF set_calls_bracketed]
      modes_made [of ?p rid d i E, OF set_calls_modes] i cs st
    show ?thesis by auto
  qed
qed

theorem query_only_after_param_mode_witness:
  "calls_of (snd (query_control_mode_main (example_env no_fault) ''query_control_mode'' [''can0'']))
     ! 3 = Set_callback_mode_all PARAM \<and>
   callback_modes STATE (take 4 (calls_of (snd
     (query_control_mode_main (example_env no_fault) ''query_control_mode'' [''can0''])))) =
     replicate 8 PARAM \<and>
   calls_of (snd (query_control_mode_main (example_env no_fault) ''query_control_mode'' [''can0'']))
     ! 5 = Recv_all 2000"
proof -
  let ?r = "query_control_mode_main (example_env no_fault) ''query_control_mode'' [''can0'']"
  have len: "length (calls_of (snd ?r)) = 9" and at: "calls_of (snd ?r) ! 4 = Query_param_all 10"
    by (simp_all add: example_query_calls)
  have "?r = query_control_mode_main (example_env no_fault) ''query_control_mode'' [''can0''] \<or>
        ?r = set_control_mode_main (example_env no_fault) ''query_control_mode'' [''can0''] 0"
    by simp
  from query_only_after_param_mode [OF this, of 4 10 STATE] len at
  show ?thesis by simp
qed

section \<open>Cleanup\<close>

text \<open>
  Claim C4. In both programs, a run in which no library call throws returns 0, and every
  run that returns 0 ends its library calls with the cleanup:
  \<^verbatim>\<open>set_callback_mode_all(STATE)\<close>, \<^verbatim>\<open>disable_all()\<close>, \<^verbatim>\<open>recv_all(1000)\<close>. In
  \<^verbatim>\<open>set_control_mode\<close> this holds for every entered value \<open>v\<close>, valid or not.
\<close>

theorem cleanup_on_every_normal_path:
  assumes r: "r = query_control_mode_main E prog args \<or> r = set_control_mode_main E prog args v"
  shows "(\<not> bad_argc args \<and> (\<forall>k. throws E k = None) \<longrightarrow> fst r = 0) \<and>
         (fst r = 0 \<longrightarrow>
            (\<exists>before. calls_of (snd r) =
               before @ [Set_callback_mode_all STATE, Disable_all, Recv_all 1000]))"
proof (cases "bad_argc args")
  case True
  with r show ?thesis by auto
next
  case False
  from r obtain plan main where
    rp: "(r, plan) = (query_control_mode_main E prog args, query_control_mode_calls E args) \<or>
         (r, plan) = (set_control_mode_main E prog args v, set_control_mode_calls E args v)"
    and split: "plan = main @ turn_off_calls"
    using query_calls_split set_calls_split by blast
  note run = run_of_plan [OF rp False]
  have "fst r = 0" if "\<forall>k. throws E k = None"
    using that run(1) by (simp add: thrown_None_iff)
  moreover have "\<exists>before. calls_of (snd r) =
      before @ [Set_callback_mode_all STATE, Disable_all, Recv_all 1000]" if "fst r = 0"
  proof -
    from that run(1) have "thrown E 0 plan = None"
      by (simp split: if_splits)
    then have "made E 0 plan = plan" by (rule made_all)
    with run(2) split have "calls_of (snd r) = main @ turn_off_calls" by simp
    then show ?thesis unfolding turn_off_calls_def by blast
  qed
  ultimately show ?thesis by blast
qed

theorem cleanup_on_every_normal_path_witness:
  "fst (set_control_mode_main (example_env no_fault) ''set_control_mode'' [''can0''] 0) = 0 \<and>
   (\<exists>before.
      calls_of (snd (set_control_mode_main (example_env no_fault) ''set_control_mode'' [''can0''] 0)) =
      before @ [Set_callback_mode_all STATE, Disable_all, Recv_all 1000])"
proof -
  let ?r = "set_control_mode_main (example_env no_fault) ''set_control_mode'' [''can0''] 0"
  have quiet: "\<forall>k. throws (example_env no_fault) k = None"
    by (simp add: example_env_simps no_fault_def)
  have "?r = query_control_mode_main (example_env no_fault) ''set_control_mode'' [''can0''] \<or>
        ?r = set_control_mode_main (example_env no_fault) ''set_control_mode'' [''can0''] 0"
    by simp
  from cleanup_on_every_normal_path [OF this] example_args(1) quiet
  show ?thesis by blast
qed

text \<open>
  Claim C5, as amended. The cleanup calls stand in the same \<^verbatim>\<open>try\<close> block as the main
  operation. When every call of the main operation has returned and one of the three
  cleanup calls is the first to throw, the exception is caught by the one handler there
  is: the message is written to \<^verbatim>\<open>std::cerr\<close> as the last event, the calls of the run
  are the main operation and the cleanup up to the call that threw, and \<^verbatim>\<open>main\<close> returns
  \<open>-1\<close>, although the main operation succeeded.
\<close>

theorem cleanup_fault_is_fatal:
  assumes r: "(r, main) = (query_control_mode_main E prog args, query_main_operation E args) \<or>
              (r, main) = (set_control_mode_main E prog args v, set_main_operation E args v)"
    and args: "\<not> bad_argc args"
    and before: "\<forall>j<k. throws E j = None"
    and fault: "throws E k = Some what"
    and cleanup: "length main \<le> k" "k < length main + 3"
  shows "fst r = - 1 \<and>
         (\<exists>tr. snd r = tr @ [Cerr (''Error: '' @ what @ endl)]) \<and>
         calls_of (snd r) = main @ take (Suc k - length main) turn_off_calls"
proof -
  from r obtain plan where
    rp: "(r, plan) = (query_control_mode_main E prog args, query_control_mode_calls E args) \<or>
         (r, plan) = (set_control_mode_main E prog args v, set_control_mode_calls E args v)"
    and split: "plan = main @ turn_off_calls"
    using query_calls_split set_calls_split by blast
  note run = run_of_plan [OF rp args]
  from cleanup split have "k < length plan"
    by (simp add: turn_off_calls_def)
  from first_throw0 [OF this before fault]
  have t: "thrown E 0 plan = Some what" and m: "made E 0 plan = take (Suc k) plan"
    by simp_all
  from cleanup have "take (Suc k) (main @ turn_off_calls) =
      main @ take (Suc k - length main) turn_off_calls"
    by simp
  with run(1) run(2) run(3) [OF t] t m split show ?thesis
    by simp
qed

theorem cleanup_fault_is_fatal_witness:
  "fst (query_control_mode_main (example_env (fault_at 7 ''bus down'')) ''query_control_mode''
          [''can0'']) = - 1 \<and>
   (\<exists>tr. snd (query_control_mode_main (example_env (fault_at 7 ''bus down''))
                ''query_control_mode'' [''can0'']) = tr @ [Cerr ''Error: bus down\<newline>'']) \<and>
   calls_of (snd (query_control_mode_main (example_env (fault_at 7 ''bus down''))
                    ''query_control_mode'' [''can0''])) =
     [OpenArm ''can0'' False, Init_arm_motors motor_types send_can_ids recv_can_ids,
      Init_gripper_motor DM4310 8 24, Set_callback_mode_all PARAM, Query_param_all 10,
      Recv_all 2000, Set_callback_mode_all STATE, Disable_all]"
proof -
  let ?E = "example_env (fault_at 7 ''bus down'')"
  let ?r = "query_control_mode_main ?E ''query_control_mode'' [''can0'']"
  let ?main = "query_main_operation ?E [''can0'']"
  have r: "(?r, ?main) = (query_control_mode_main ?E ''query_control_mode'' [''can0''],
                          query_main_operation ?E [''can0'']) \<or>
           (?r, ?main) = (set_control_mode_main ?E ''query_control_mode'' [''can0''] 0,
                          set_main_operation ?E [''can0''] 0)"
    by simp
  have before: "\<forall>j<7. throws ?E j = None" and fault: "throws ?E 7 = Some ''bus down''"
    by (simp_all add: example_env_simps fault_at_def)
  have len: "length ?main \<le> 7" "7 < length ?main + 3"
    by (simp_all add: query_main_operation_def initialize_calls_def query_calls_def)
  from cleanup_fault_is_fatal [OF r example_args(1) before fault len]
  show ?thesis
    by (simp add: query_main_operation_def initialize_calls_def query_calls_def turn_off_calls_def
        example_env_simps can_fd_def endl_def)
qed

text \<open>
  The exit status does not keep the outcome of the main operation: on the example
  environment, when only the last call of \<^verbatim>\<open>query_control_mode\<close>, the
  \<^verbatim>\<open>recv_all(1000)\<close> of the cleanup, throws, every call of the main operation has
  returned and yet \<^verbatim>\<open>main\<close> returns \<open>-1\<close>; without that fault it returns 0.
\<close>

theorem cleanup_fault_counterexample:
  "thrown (example_env (fault_at 8 ''recv_all failed'')) 0
     (query_main_operation (example_env (fault_at 8 ''recv_all failed'')) [''can0'']) = None \<and>
   fst (query_control_mode_main (example_env (fault_at 8 ''recv_all failed''))
          ''query_control_mode'' [''can0'']) = - 1 \<and>
   fst (query_control_mode_main (example_env no_fault) ''query_control_mode'' [''can0'']) = 0"
  by (simp add: run_simps example_env_simps no_fault_def fault_at_def can_fd_def
      query_main_operation_def initialize_calls_def query_calls_def)

section \<open>Usage errors and exceptions\<close>

text \<open>
  Claim C6. With \<^verbatim>\<open>argc\<close> (here \<open>length args + 1\<close>) other than 2 and 3, both programs
  write the usage line to \<^verbatim>\<open>std::cerr\<close> and return 1, and that line is the whole run: no
  library call is made, the bus is never opened. With a good \<^verbatim>\<open>argc\<close>, when call number
  \<open>k\<close> of the program's call sequence is the first to throw, \<^verbatim>\<open>main\<close> returns \<open>-1\<close>, the
  last event of the run is the line \<^verbatim>\<open>Error: \<close>\<open>what\<close> on \<^verbatim>\<open>std::cerr\<close>, and the calls made
  are exactly the first \<open>k + 1\<close> of the sequence: the call that threw is the last one, it
  is not made again and nothing is called after it.
\<close>

theorem argument_and_fault_handling:
  assumes r: "(r, plan) = (query_control_mode_main E prog args, query_control_mode_calls E args) \<or>
              (r, plan) = (set_control_mode_main E prog args v, set_control_mode_calls E args v)"
  shows "(length args + 1 \<noteq> 2 \<and> length args + 1 \<noteq> 3 \<longrightarrow>
            r = (1, [Cerr (usage prog)]) \<and> calls_of (snd r) = []) \<and>
         ((length args + 1 = 2 \<or> length args + 1 = 3) \<and>
          k < length plan \<and> (\<forall>j<k. throws E j = None) \<and> throws E k = Some what \<longrightarrow>
            fst r = - 1 \<and>
            (\<exists>tr. snd r = tr @ [Cerr (''Error: '' @ what @ endl)]) \<and>
            calls_of (snd r) = take (Suc k) plan)"
proof (intro conjI impI)
  assume "length args + 1 \<noteq> 2 \<and> length args + 1 \<noteq> 3"
  then have "bad_argc args" by (simp add: bad_argc_def)
  with r show "r = (1, [Cerr (usage prog)])" by auto
  then show "calls_of (snd r) = []" by simp
next
  assume a: "(length args + 1 = 2 \<or> length args + 1 = 3) \<and>
          k < length plan \<and> (\<forall>j<k. throws E j = None) \<and> throws E k = Some what"
  then have args: "\<not> bad_argc args" by (auto simp: bad_argc_def)
  note run = run_of_plan [OF r args]
  from a have "thrown E 0 plan = Some what \<and> made E 0 plan = take (Suc k) plan"
    using first_throw0 by blast
  then have t: "thrown E 0 plan = Some what" and m: "made E 0 plan = take (Suc k) plan"
    by simp_all
  from run(1) t show "fst r = - 1" by simp
  from run(3) [OF t] show "\<exists>tr. snd r = tr @ [Cerr (''Error: '' @ what @ endl)]" .
  from run(2) m show "calls_of (snd r) = take (Suc k) plan" by simp
qed

theorem argument_and_fault_handling_witness:
  "query_control_mode_main (example_env no_fault) ''query_control_mode'' [] =
     (1, [Cerr ''Usage: query_control_mode  <can interface> <optional fd mode: true/false. default: false>\<newline>'']) \<and>
   fst (set_control_mode_main (example_env (fault_at 4 ''send failed'')) ''set_control_mode''
          [''can0''] 2) = - 1 \<and>
   (\<exists>tr. snd (set_control_mode_main (example_env (fault_at 4 ''send failed'')) ''set_control_mode''
                [''can0''] 2) = tr @ [Cerr ''Error: send failed\<newline>'']) \<and>
   calls_of (snd (set_control_mode_main (example_env (fault_at 4 ''send failed''))
                    ''set_control_mode'' [''can0''] 2)) =
     [OpenArm ''can0'' False, Init_arm_motors motor_types send_can_ids recv_can_ids,
      Init_gripper_motor DM4310 8 24, Set_callback_mode_all PARAM, Query_param_all 10]"
proof -
  let ?Q = "example_env no_fault"
  let ?E = "example_env (fault_at 4 ''send failed'')"
  let ?r = "set_control_mode_main ?E ''set_control_mode'' [''can0''] 2"
  let ?plan = "set_control_mode_calls ?E [''can0''] 2"
  have usage: "(query_control_mode_main ?Q ''query_control_mode'' [],
                query_control_mode_calls ?Q []) =
               (query_control_mode_main ?Q ''query_control_mode'' [], query_control_mode_calls ?Q []) \<or>
               (query_control_mode_main ?Q ''query_control_mode'' [],
                query_control_mode_calls ?Q []) =
               (set_control_mode_main ?Q ''query_control_mode'' [] 0, set_control_mode_calls ?Q [] 0)"
    by simp
  have r: "(?r, ?plan) = (query_control_mode_main ?E ''set_control_mode'' [''can0''],
                          query_control_mode_calls ?E [''can0'']) \<or>
           (?r, ?plan) = (set_control_mode_main ?E ''set_control_mode'' [''can0''] 2, ?plan)"
    by simp
  have fault: "\<forall>j<4. throws ?E j = None" "throws ?E 4 = Some ''send failed''"
    by (simp_all add: example_env_simps fault_at_def)
  have len: "4 < length ?plan"
    by (simp add: set_control_mode_calls_def initialize_calls_def query_calls_def
        turn_off_calls_def)
  have plan: "take 5 ?plan =
     [OpenArm ''can0'' False, Init_arm_motors motor_types send_can_ids recv_can_ids,
      Init_gripper_motor DM4310 8 24, Set_callback_mode_all PARAM, Query_param_all 10]"
    by (simp add: set_control_mode_calls_def initialize_calls_def query_calls_def
        example_env_simps can_fd_def)
  from argument_and_fault_handling [OF usage, where k = 0 and what = "''''"]
    argument_and_fault_handling [OF r, where k = 4 and what = "''send failed''"]
    fault len plan
  show ?thesis
    by (simp add: usage_def endl_def)
qed

section \<open>The listing of the available modes\<close>

lemma available_modes_upto:
  "available_modes E i hi = map (mode_line E) [uint i..uint hi - 1]"
proof (induction E i hi rule: available_modes.induct)
  case (1 E i hi)
  show ?case
  proof (cases "i < hi")
    case True
    then have step: "uint (i + 1) = uint i + 1" and le: "uint i \<le> uint hi - 1"
      by uint_arith+
    from True have "available_modes E i hi = mode_line E (uint i) # available_modes E (i + 1) hi"
      by (simp add: available_modes.simps [of E i hi])
    also have "available_modes E (i + 1) hi = map (mode_line E) [uint i + 1..uint hi - 1]"
      using 1 [OF True] step by simp
    also have "mode_line E (uint i) # map (mode_line E) [uint i + 1..uint hi - 1] =
               map (mode_line E) [uint i..uint hi - 1]"
      using le by (simp add: upto_rec1 [of "uint i"])
    finally show ?thesis .
  next
    case False
    then have "uint hi - 1 < uint i"
      by uint_arith
    with False show ?thesis
      by (simp add: available_modes.simps [of E i hi])
  qed
qed

lemma uint_size_t: "0 \<le> k \<Longrightarrow> k < 2 ^ 64 \<Longrightarrow> uint (word_of_int k :: size_t) = k"
  by (simp add: unsigned_of_int take_bit_int_eq_self)

lemma available_modes_enum:
  assumes "0 \<le> minMode E" "minMode E + 1 < 2 ^ 64" "0 \<le> maxMode E" "maxMode E < 2 ^ 64"
  shows "available_modes E (static_cast_size_t (minMode E) + 1) (static_cast_size_t (maxMode E)) =
         map (mode_line E) [minMode E + 1..maxMode E - 1]"
proof -
  have lo: "static_cast_size_t (minMode E) + 1 = word_of_int (minMode E + 1)"
    by (simp add: static_cast_size_t_def)
  from assms have "0 \<le> minMode E + 1" by simp
  note u = uint_size_t [OF this assms(2)] uint_size_t [OF assms(3) assms(4)]
  show ?thesis
    by (subst lo) (simp only: available_modes_upto static_cast_size_t_def u)
qed

lemma initialize_prefix:
  "\<exists>tr. trace (snd (initialize E args \<lparr>trace = [], ncalls = 0\<rparr>)) =
     ([Cout (''=== Query Control Mode ==='' @ endl),
       Cout (''Query robot motor control mode'' @ endl),
       Cout (''Available modes:'' @ [CHR 0x0A])] @
      map Cout (available_modes E (static_cast_size_t (minMode E) + 1)
                                  (static_cast_size_t (maxMode E))) @
      [Cout (''Initializing OpenArm CAN...'' @ endl)]) @ tr"
proof -
  let ?w0 = "\<lparr>trace = [], ncalls = 0\<rparr>"
  define s1 where "s1 = cout (''=== Query Control Mode ==='' @ endl)"
  define s2 where "s2 = cout (''Query robot motor control mode'' @ endl)"
  define s4 where "s4 = cout (''Initializing OpenArm CAN...'' @ endl)"
  define rest where "rest =
      [cout (''Interface: '' @ args ! 0 @ endl),
       cout (''Flexible Data Mode: '' @ (if can_fd args then ''true'' else ''false'') @ endl),
       lib E (OpenArm (args ! 0) (can_fd args)),
       lib E (Init_arm_motors motor_types send_can_ids recv_can_ids),
       cout (''Initializing gripper...'' @ endl),
       lib E (Init_gripper_motor DM4310 0x08 0x18)]"
  define w1 where "w1 = snd (s1 ?w0)"
  define w2 where "w2 = snd (s2 w1)"
  define w3 where "w3 = snd (print_available_modes E w2)"
  define w4 where "w4 = snd (s4 w3)"
  have init: "initialize E args = block (s1 # s2 # print_available_modes E # s4 # rest)"
    by (simp add: initialize_def s1_def s2_def s4_def rest_def)
  have ok: "fst (s1 ?w0) = None" "fst (s2 w1) = None" "fst (print_available_modes E w2) = None"
    "fst (s4 w3) = None"
    by (simp_all add: s1_def s2_def s4_def cout_def print_available_modes_eq)
  have "initialize E args ?w0 = block rest w4"
    unfolding init using ok
    by (simp only: block_cons_ok w1_def [symmetric] w2_def [symmetric] w3_def [symmetric]
        w4_def [symmetric])
  moreover have "\<exists>tr. trace (snd (block rest w4)) = trace w4 @ tr"
    unfolding rest_def by (rule implements_grows [OF implements_initialize_rest])
  moreover have "trace w4 =
      [Cout (''=== Query Control Mode ==='' @ endl),
       Cout (''Query robot motor control mode'' @ endl),
       Cout (''Available modes:'' @ [CHR 0x0A])] @
      map Cout (available_modes E (static_cast_size_t (minMode E) + 1)
                                  (static_cast_size_t (maxMode E))) @
      [Cout (''Initializing OpenArm CAN...'' @ endl)]"
    by (simp add: w4_def w3_def w2_def w1_def s1_def s2_def s4_def cout_def
        print_available_modes_eq)
  ultimately show ?thesis by auto
qed

lemma main_prefix:
  assumes r: "r = query_control_mode_main E prog args \<or> r = set_control_mode_main E prog args v"
    and args: "\<not> bad_argc args"
  shows "\<exists>rest. snd r =
     ([Cout (''=== Query Control Mode ==='' @ endl),
       Cout (''Query robot motor control mode'' @ endl),
       Cout (''Available modes:'' @ [CHR 0x0A])] @
      map Cout (available_modes E (static_cast_size_t (minMode E) + 1)
                                  (static_cast_size_t (maxMode E))) @
      [Cout (''Initializing OpenArm CAN...'' @ endl)]) @ rest"
    (is "\<exists>rest. snd r = ?P @ rest")
proof -
  let ?w0 = "\<lparr>trace = [], ncalls = 0\<rparr>"
  define qrest where "qrest =
      [lib E (Set_callback_mode_all PARAM), lib E (Query_param_all (CTRL_MODE E)),
       lib E (Recv_all 2000),
       for_motors (arm_motors E)
         (\<lambda>motor. cout (motor_line E ''Arm'' motor (control_mode_code_query E motor))),
       for_motors (gripper_motors E)
         (\<lambda>motor. cout (motor_line E ''Gripper'' motor (control_mode_code_query E motor)))]
      @ turn_off_motor E"
  have qbody: "query_control_mode_body E args = block (initialize E args # qrest)"
    by (simp add: query_control_mode_body_def qrest_def)
  have qimpl: "implements E (block qrest) (query_calls E @ turn_off_calls)"
    unfolding qrest_def by (rule implements_query_rest)
  have q: "\<exists>tr. trace (snd (query_control_mode_body E args ?w0)) = ?P @ tr"
    unfolding qbody
    by (rule block_prefix_grows [where s = "initialize E args" and w = ?w0,
          OF initialize_prefix qimpl])
  define srest where "srest =
      [cout (''=== Previous control modes === '' @ [CHR 0x0A]),
        print_control_mode E,
        cout (''Target Control Mode (int - '' @ to_string (min_mode_value E) @
              '' < value < '' @ to_string (max_mode_value E) @ ''): ''),
        cin v,
        (if target_control_mode_valid E v
         then block
           [cout (''Setting control modes to: '' @ to_string v @
                  GetMotorControlModeString E v),
            lib E (Write_param_all (CTRL_MODE E) (of_int v)),
            lib E (Recv_all 2000)]
         else cout (''Invalid control mode value received: '' @
                    to_string v @ [CHR 0x0A])),
        cout (''=== Current control modes === '' @ [CHR 0x0A]),
        print_control_mode E,
        cout (''Disabling motors'' @ [CHR 0x0A])]
       @ turn_off_motor E"
  have sbody: "set_control_mode_body E args v = block (initialize E args # srest)"
    by (simp add: set_control_mode_body_def srest_def)
  have simpl: "implements E (block srest)
      (query_calls E @ (if target_control_mode_valid E v then write_calls E v else []) @
       query_calls E @ turn_off_calls)"
    unfolding srest_def by (rule implements_set_after_initialize)
  have s: "\<exists>tr. trace (snd (set_control_mode_body E args v ?w0)) = ?P @ tr"
    unfolding sbody
    by (rule block_prefix_grows [where s = "initialize E args" and w = ?w0,
          OF initialize_prefix simpl])
  from r show ?thesis
  proof
    assume "r = query_control_mode_main E prog args"
    with args q try_catch_trace [of "query_control_mode_body E args"] show ?thesis
      by (auto simp: query_control_mode_main_def)
  next
    assume "r = set_control_mode_main E prog args v"
    with args s try_catch_trace [of "set_control_mode_body E args v"] show ?thesis
      by (auto simp: set_control_mode_main_def)
  qed
qed

text \<open>
  Claim C7. In both programs, a run with a good \<^verbatim>\<open>argc\<close> starts with the two banner
  lines and the line \<^verbatim>\<open>Available modes:\<close>, then prints one line \<open>i:name\<close> for each
  integer \<open>i\<close> with \<open>minMode < i < maxMode\<close>, in increasing order and with the name
  \<^verbatim>\<open>GetMotorControlModeString\<close> gives for \<open>i\<close>, and nothing else before the line
  \<^verbatim>\<open>Initializing OpenArm CAN...\<close>: neither sentinel is listed. The loop counts in
  \<^verbatim>\<open>size_t\<close>; the sentinels are assumed to be non-negative and to fit it.
\<close>

theorem available_modes_listing:
  assumes r: "r = query_control_mode_main E prog args \<or> r = set_control_mode_main E prog args v"
    and args: "\<not> bad_argc args"
    and enum: "0 \<le> minMode E" "minMode E + 1 < 2 ^ 64" "0 \<le> maxMode E" "maxMode E < 2 ^ 64"
  shows "\<exists>rest. snd r =
     [Cout (''=== Query Control Mode ==='' @ endl),
      Cout (''Query robot motor control mode'' @ endl),
      Cout (''Available modes:'' @ [CHR 0x0A])] @
     map (\<lambda>i. Cout (to_string i @ '':'' @ GetMotorControlModeString E i @ [CHR 0x0A]))
         [minMode E + 1..maxMode E - 1] @
     Cout (''Initializing OpenArm CAN...'' @ endl) # rest"
proof -
  have "map Cout (available_modes E (static_cast_size_t (minMode E) + 1)
                                    (static_cast_size_t (maxMode E))) =
        map (\<lambda>i. Cout (to_string i @ '':'' @ GetMotorControlModeString E i @ [CHR 0x0A]))
            [minMode E + 1..maxMode E - 1]"
    by (simp add: available_modes_enum [OF enum] mode_line_def)
  with main_prefix [OF r args] show ?thesis
    by simp
qed

theorem available_modes_listing_witness:
  "\<exists>rest. snd (query_control_mode_main (example_env no_fault) ''query_control_mode'' [''can0'']) =
     [Cout ''=== Query Control Mode ===\<newline>'', Cout ''Query robot motor control mode\<newline>'',
      Cout ''Available modes:\<newline>'',
      Cout ''1:MIT\<newline>'', Cout ''2:POS_VEL\<newline>'', Cout ''3:VEL\<newline>'', Cout ''4:POS_FORCE\<newline>'',
      Cout ''Initializing OpenArm CAN...\<newline>''] @ rest"
proof -
  let ?E = "example_env no_fault"
  let ?r = "query_control_mode_main ?E ''query_control_mode'' [''can0'']"
  have r: "?r = query_control_mode_main ?E ''query_control_mode'' [''can0''] \<or>
           ?r = set_control_mode_main ?E ''query_control_mode'' [''can0''] 0"
    by simp
  have enum: "0 \<le> minMode ?E" "minMode ?E + 1 < 2 ^ 64" "0 \<le> maxMode ?E" "maxMode ?E < 2 ^ 64"
    by (simp_all add: example_env_simps)
  have range: "[minMode ?E + 1..maxMode ?E - 1] = [1, 2, 3, 4]"
    by (simp add: example_env_simps upto_rec1)
  have names: "GetMotorControlModeString ?E = example_mode_name"
    by (simp add: example_env_def)
  have digits: "to_string 1 = ''1''" "to_string 2 = ''2''" "to_string 3 = ''3''"
    "to_string 4 = ''4''"
    by (simp_all add: to_string_def to_string_nat.simps digit_char_def)
  from available_modes_listing [OF r example_args(1) enum]
  show ?thesis
    by (simp add: range names digits example_mode_name_def endl_def)
qed

section \<open>The motor tables\<close>

text \<open>
  Claim C8. In both programs, when the constructor and \<^verbatim>\<open>init_arm_motors\<close> return, the
  motors registered in the run are exactly these, in this order: the seven arm motors
  with the outbound addresses \<open>0x01..0x07\<close> and, position by position, the inbound
  addresses \<open>0x11..0x17\<close>, then the gripper motor with \<open>0x08\<close> and \<open>0x18\<close>. The three arm
  tables have seven entries each, and the sixteen addresses are pairwise different (so
  are the outbound ones among themselves and the inbound ones among themselves).
\<close>

theorem motor_tables:
  assumes r: "r = query_control_mode_main E prog args \<or> r = set_control_mode_main E prog args v"
    and args: "\<not> bad_argc args"
    and opened: "throws E 0 = None" "throws E 1 = None"
  shows "filter is_registration (calls_of (snd r)) =
           [Init_arm_motors [DM8009, DM8009, DM4340, DM4340, DM4310, DM4310, DM4310]
              [0x01, 0x02, 0x03, 0x04, 0x05, 0x06, 0x07]
              [0x11, 0x12, 0x13, 0x14, 0x15, 0x16, 0x17],
            Init_gripper_motor DM4310 0x08 0x18] \<and>
         length send_can_ids = 7 \<and> length recv_can_ids = 7 \<and> length motor_types = 7 \<and>
         distinct (send_can_ids @ [0x08]) \<and> distinct (recv_can_ids @ [0x18]) \<and>
         distinct (send_can_ids @ [0x08] @ recv_can_ids @ [0x18])"
proof -
  from r obtain plan where
    rp: "(r, plan) = (query_control_mode_main E prog args, query_control_mode_calls E args) \<or>
         (r, plan) = (set_control_mode_main E prog args v, set_control_mode_calls E args v)"
    by blast
  from plan_after_initialize [OF rp] obtain rest where
    plan: "plan = initialize_calls args @ rest" and rest: "\<forall>c\<in>set rest. \<not> is_registration c"
    by blast
  have "calls_of (snd r) = made E 0 plan"
    by (rule run_of_plan(2) [OF rp args])
  also have "\<dots> = OpenArm (args ! 0) (can_fd args) #
      Init_arm_motors motor_types send_can_ids recv_can_ids #
      Init_gripper_motor DM4310 0x08 0x18 #
      (case throws E (Suc (Suc 0)) of None \<Rightarrow> made E (Suc (Suc (Suc 0))) rest
       | Some what \<Rightarrow> [])"
    using opened by (simp add: plan initialize_calls_def)
  finally have "filter is_registration (calls_of (snd r)) =
      [Init_arm_motors motor_types send_can_ids recv_can_ids, Init_gripper_motor DM4310 0x08 0x18]"
    using filter_made_none [OF rest, of E "Suc (Suc (Suc 0))"] by (simp split: option.splits)
  then show ?thesis
    by (simp add: motor_types_def send_can_ids_def recv_can_ids_def)
qed

theorem motor_tables_witness:
  "filter is_registration
     (calls_of (snd (set_control_mode_main (example_env no_fault) ''set_control_mode'' [''can0''] 3))) =
     [Init_arm_motors [DM8009, DM8009, DM4340, DM4340, DM4310, DM4310, DM4310]
        [0x01, 0x02, 0x03, 0x04, 0x05, 0x06, 0x07]
        [0x11, 0x12, 0x13, 0x14, 0x15, 0x16, 0x17],
      Init_gripper_motor DM4310 0x08 0x18]"
proof -
  let ?r = "set_control_mode_main (example_env no_fault) ''set_control_mode'' [''can0''] 3"
  have r: "?r = query_control_mode_main (example_env no_fault) ''set_control_mode'' [''can0''] \<or>
           ?r = set_control_mode_main (example_env no_fault) ''set_control_mode'' [''can0''] 3"
    by simp
  have "throws (example_env no_fault) 0 = None" "throws (example_env no_fault) 1 = None"
    by (simp_all add: example_env_simps no_fault_def)
  from motor_tables [OF r example_args(1) this] show ?thesis
    by simp
qed

section \<open>The flexible-data flag\<close>

lemma of_char_less_256: "(of_char c :: nat) < 256"
proof -
  have "(of_char c :: nat) mod 256 = of_char c" by (rule of_char_mod_256)
  moreover have "(of_char c :: nat) mod 256 < 256" by simp
  ultimately show ?thesis by simp
qed

lemma tolower_eq_lower:
  assumes l: "97 \<le> (of_char l :: nat)" "(of_char l :: nat) \<le> 122"
  shows "tolower c = l \<longleftrightarrow> c = l \<or> (of_char c :: nat) + 32 = of_char l"
proof (cases "65 \<le> (of_char c :: nat) \<and> (of_char c :: nat) \<le> 90")
  case True
  then have "tolower c = char_of ((of_char c :: nat) + 32)"
    by (simp add: tolower_def)
  then have "tolower c = l \<longleftrightarrow> char_of ((of_char c :: nat) + 32) = l"
    by simp
  also have "\<dots> \<longleftrightarrow> ((of_char c :: nat) + 32) mod 256 = of_char l"
    by (simp only: char_of_eq_iff take_bit_eq_mod) simp
  also from True have "((of_char c :: nat) + 32) mod 256 = of_char c + 32"
    by simp
  also have "(of_char c :: nat) + 32 = of_char l \<longleftrightarrow> c = l \<or> (of_char c :: nat) + 32 = of_char l"
    using True l by auto
  finally show ?thesis .
next
  case False
  then have "(65 \<le> (of_char c :: nat) \<and> (of_char c :: nat) \<le> 90) = False"
    by simp
  then have "tolower c = c"
    unfolding tolower_def by (simp only: if_False)
  moreover from False l have "(of_char c :: nat) + 32 \<noteq> of_char l"
    by linarith
  ultimately show ?thesis by simp
qed

lemma add32_upper:
  assumes "(of_char u :: nat) + 32 = of_char l"
  shows "(of_char c :: nat) + 32 = of_char l \<longleftrightarrow> c = u"
proof -
  have "(of_char c :: nat) + 32 = of_char l \<longleftrightarrow> (of_char c :: nat) = of_char u"
    using assms by linarith
  then show ?thesis by (simp only: of_char_eq_iff)
qed

lemma tolower_t: "tolower c = CHR ''t'' \<longleftrightarrow> c = CHR ''t'' \<or> c = CHR ''T''"
proof -
  have "(of_char (CHR ''T'') :: nat) + 32 = of_char (CHR ''t'')" by simp
  from add32_upper [OF this, of c] tolower_eq_lower [of "CHR ''t''" c]
  show ?thesis by simp
qed

lemma tolower_r: "tolower c = CHR ''r'' \<longleftrightarrow> c = CHR ''r'' \<or> c = CHR ''R''"
proof -
  have "(of_char (CHR ''R'') :: nat) + 32 = of_char (CHR ''r'')" by simp
  from add32_upper [OF this, of c] tolower_eq_lower [of "CHR ''r''" c]
  show ?thesis by simp
qed

lemma tolower_u: "tolower c = CHR ''u'' \<longleftrightarrow> c = CHR ''u'' \<or> c = CHR ''U''"
proof -
  have "(of_char (CHR ''U'') :: nat) + 32 = of_char (CHR ''u'')" by simp
  from add32_upper [OF this, of c] tolower_eq_lower [of "CHR ''u''" c]
  show ?thesis by simp
qed

lemma tolower_e: "tolower c = CHR ''e'' \<longleftrightarrow> c = CHR ''e'' \<or> c = CHR ''E''"
proof -
  have "(of_char (CHR ''E'') :: nat) + 32 = of_char (CHR ''e'')" by simp
  from add32_upper [OF this, of c] tolower_eq_lower [of "CHR ''e''" c]
  show ?thesis by simp
qed

lemma length_4: "length s = 4 \<Longrightarrow> \<exists>a b c d. s = [a, b, c, d]"
  apply (simp add: length_Suc_conv numeral_eq_Suc)
  apply (elim exE conjE)
  apply simp
  done

lemma lowercase_true:
  "map tolower s = ''true'' \<longleftrightarrow> s \<in> set (product_lists [''tT'', ''rR'', ''uU'', ''eE''])"
proof
  assume m: "map tolower s = ''true''"
  then have "length (map tolower s) = length ''true''" by (rule arg_cong)
  then have "length s = 4" by simp
  then obtain a b c d where s: "s = [a, b, c, d]"
    using length_4 by blast
  with m have "tolower a = CHR ''t''" "tolower b = CHR ''r''" "tolower c = CHR ''u''"
    "tolower d = CHR ''e''"
    by simp_all
  then have "a \<in> set ''tT''" "b \<in> set ''rR''" "c \<in> set ''uU''" "d \<in> set ''eE''"
    unfolding tolower_t tolower_r tolower_u tolower_e by simp_all
  then have "list_all2 (\<lambda>x ys. x \<in> set ys) [a, b, c, d] [''tT'', ''rR'', ''uU'', ''eE'']"
    by (simp only: list_all2_Cons list_all2_Nil simp_thms)
  with s show "s \<in> set (product_lists [''tT'', ''rR'', ''uU'', ''eE''])"
    by (simp only: product_lists_set mem_Collect_eq)
next
  assume "s \<in> set (product_lists [''tT'', ''rR'', ''uU'', ''eE''])"
  then have l: "list_all2 (\<lambda>x ys. x \<in> set ys) s [''tT'', ''rR'', ''uU'', ''eE'']"
    by (simp only: product_lists_set mem_Collect_eq)
  then have "length s = 4"
    by (simp add: list_all2_lengthD)
  then obtain a b c d where s: "s = [a, b, c, d]"
    using length_4 by blast
  from l have "a \<in> set ''tT''" "b \<in> set ''rR''" "c \<in> set ''uU''" "d \<in> set ''eE''"
    unfolding s by (simp_all only: list_all2_Cons simp_thms)
  then have "tolower a = CHR ''t''" "tolower b = CHR ''r''" "tolower c = CHR ''u''"
    "tolower d = CHR ''e''"
    unfolding tolower_t tolower_r tolower_u tolower_e by simp_all
  with s show "map tolower s = ''true''"
    by simp
qed

text \<open>
  Claim C9. In both programs, with a good \<^verbatim>\<open>argc\<close>, the run never ends with the status 1
  of a usage error, and its first library call is the constructor, with the interface
  name and the flag \<^verbatim>\<open>can_fd\<close>; the flag is true if and only if there is a second
  argument (\<^verbatim>\<open>argc == 3\<close>) and that argument, lower-cased, is \<^verbatim>\<open>true\<close>, that is, if it is
  one of the sixteen spellings of \<^verbatim>\<open>true\<close> in upper and lower case. Any other second
  argument, and no second argument, give the flag false.
\<close>

theorem flexible_data_flag:
  assumes r: "r = query_control_mode_main E prog args \<or> r = set_control_mode_main E prog args v"
    and args: "\<not> bad_argc args"
  shows "fst r \<noteq> 1 \<and>
         (\<exists>cs. calls_of (snd r) =
            OpenArm (args ! 0) (length args = 2 \<and> map tolower (args ! 1) = ''true'') # cs) \<and>
         (map tolower (args ! 1) = ''true'' \<longleftrightarrow>
            args ! 1 \<in> set (product_lists [''tT'', ''rR'', ''uU'', ''eE'']))"
proof -
  from r obtain plan where
    rp: "(r, plan) = (query_control_mode_main E prog args, query_control_mode_calls E args) \<or>
         (r, plan) = (set_control_mode_main E prog args v, set_control_mode_calls E args v)"
    by blast
  from plan_after_initialize [OF rp] obtain rest where
    plan: "plan = initialize_calls args @ rest"
    by blast
  have fd: "can_fd args = (length args = 2 \<and> map tolower (args ! 1) = ''true'')"
    by (simp add: can_fd_def)
  have "calls_of (snd r) = made E 0 plan"
    by (rule run_of_plan(2) [OF rp args])
  then have "\<exists>cs. calls_of (snd r) =
      OpenArm (args ! 0) (length args = 2 \<and> map tolower (args ! 1) = ''true'') # cs"
    unfolding plan initialize_calls_def fd by simp
  moreover from run_of_plan(1) [OF rp args] have "fst r \<noteq> 1"
    by (simp split: if_splits)
  ultimately show ?thesis
    using lowercase_true [of "args ! 1"] by blast
qed

theorem flexible_data_flag_witness:
  "(\<exists>cs. calls_of (snd (query_control_mode_main (example_env no_fault) ''query_control_mode''
                         [''can0'', ''TRUE''])) = OpenArm ''can0'' True # cs) \<and>
   (\<exists>cs. calls_of (snd (query_control_mode_main (example_env no_fault) ''query_control_mode''
                         [''can0'', ''1''])) = OpenArm ''can0'' False # cs) \<and>
   (\<exists>cs. calls_of (snd (query_control_mode_main (example_env no_fault) ''query_control_mode''
                         [''can0'', ''yes''])) = OpenArm ''can0'' False # cs) \<and>
   (\<exists>cs. calls_of (snd (query_control_mode_main (example_env no_fault) ''query_control_mode''
                         [''can0'', ''TRUE ''])) = OpenArm ''can0'' False # cs) \<and>
   (\<exists>cs. calls_of (snd (set_control_mode_main (example_env no_fault) ''set_control_mode''
                         [''can0''] 1)) = OpenArm ''can0'' False # cs)"
proof -
  let ?E = "example_env no_fault"
  have q: "query_control_mode_main ?E ''query_control_mode'' a =
             query_control_mode_main ?E ''query_control_mode'' a \<or>
           query_control_mode_main ?E ''query_control_mode'' a =
             set_control_mode_main ?E ''query_control_mode'' a 0" for a
    by simp
  have s: "set_control_mode_main ?E ''set_control_mode'' [''can0''] 1 =
             query_control_mode_main ?E ''set_control_mode'' [''can0''] \<or>
           set_control_mode_main ?E ''set_control_mode'' [''can0''] 1 =
             set_control_mode_main ?E ''set_control_mode'' [''can0''] 1"
    by simp
  have args: "\<not> bad_argc [''can0'', x]" "\<not> bad_argc [''can0'']" for x
    by (simp_all add: bad_argc_def)
  have low: "''TRUE'' \<in> set (product_lists [''tT'', ''rR'', ''uU'', ''eE''])"
    "''1'' \<notin> set (product_lists [''tT'', ''rR'', ''uU'', ''eE''])"
    "''yes'' \<notin> set (product_lists [''tT'', ''rR'', ''uU'', ''eE''])"
    "''TRUE '' \<notin> set (product_lists [''tT'', ''rR'', ''uU'', ''eE''])"
    by simp_all
  from flexible_data_flag [OF q args(1), of "''TRUE''"]
    flexible_data_flag [OF q args(1), of "''1''"]
    flexible_data_flag [OF q args(1), of "''yes''"]
    flexible_data_flag [OF q args(1), of "''TRUE ''"]
    flexible_data_flag [OF s args(2)] low
  show ?thesis
    by (simp add: tolower_t tolower_r tolower_u tolower_e)
qed

section \<open>Rounding against truncation\<close>

lemma std_round_half_up:
  assumes "0 \<le> x" "1 / 2 \<le> frac x"
  shows "std_round x = of_int (\<lfloor>x\<rfloor> + 1)"
proof -
  have "x = of_int \<lfloor>x\<rfloor> + frac x"
    by (simp add: frac_def)
  moreover have "frac x < 1" by (rule frac_lt_1)
  ultimately have "of_int (\<lfloor>x\<rfloor> + 1) \<le> x + 1 / 2" "x + 1 / 2 < of_int (\<lfloor>x\<rfloor> + 1) + 1"
    using assms(2) by simp_all
  then have "\<lfloor>x + 1 / 2\<rfloor> = \<lfloor>x\<rfloor> + 1"
    by (simp add: floor_unique)
  with assms(1) show ?thesis
    by (simp add: std_round_def)
qed

lemma static_cast_uint8_of_int:
  "0 \<le> n \<Longrightarrow> n < 256 \<Longrightarrow> uint (static_cast_uint8 E (of_int n)) = n"
  by (simp add: static_cast_uint8_def truncate_towards_zero_def uint_word_of_int take_bit_int_eq_self)

lemma static_cast_uint8_floor:
  "0 \<le> x \<Longrightarrow> x < 256 \<Longrightarrow> uint (static_cast_uint8 E x) = \<lfloor>x\<rfloor>"
proof -
  assume x: "0 \<le> x" "x < 256"
  then have "0 \<le> \<lfloor>x\<rfloor>" "\<lfloor>x\<rfloor> < 256"
    by (simp_all add: floor_less_iff)
  with x show ?thesis
    by (simp add: static_cast_uint8_def truncate_towards_zero_def uint_word_of_int
        take_bit_int_eq_self)
qed

lemma digit_char_digit: "d < 10 \<Longrightarrow> digit_char d \<in> set ''0123456789''"
  unfolding digit_char_def by (rule nth_mem) simp

lemma digit_char_inj: "a < 10 \<Longrightarrow> b < 10 \<Longrightarrow> digit_char a = digit_char b \<Longrightarrow> a = b"
proof -
  assume a: "a < 10" and b: "b < 10" and eq: "digit_char a = digit_char b"
  have d: "distinct ''0123456789''" by simp
  have "a < length ''0123456789''" "b < length ''0123456789''"
    using a b by simp_all
  with d eq show "a = b"
    unfolding digit_char_def by (simp only: nth_eq_iff_index_eq)
qed

lemma to_string_nat_digits: "set (to_string_nat n) \<subseteq> set ''0123456789''"
proof (induction n rule: to_string_nat.induct)
  case (1 n)
  show ?case
  proof (cases "n < 10")
    case True
    then have "to_string_nat n = [digit_char n]"
      by (simp add: to_string_nat.simps [of n])
    with digit_char_digit [OF True] show ?thesis by simp
  next
    case False
    then have "to_string_nat n = to_string_nat (n div 10) @ [digit_char (n mod 10)]"
      by (simp add: to_string_nat.simps [of n])
    moreover have "digit_char (n mod 10) \<in> set ''0123456789''"
      by (rule digit_char_digit) simp
    ultimately show ?thesis
      using 1 [OF False] by simp
  qed
qed

lemma to_string_nat_nonempty: "to_string_nat n \<noteq> []"
  by (simp add: to_string_nat.simps [of n])

lemma to_string_nat_inj: "to_string_nat a = to_string_nat b \<Longrightarrow> a = b"
proof (induction a arbitrary: b rule: to_string_nat.induct)
  case (1 a)
  show ?case
  proof (cases "a < 10")
    case True
    then have sa: "to_string_nat a = [digit_char a]"
      by (simp add: to_string_nat.simps [of a])
    show ?thesis
    proof (cases "b < 10")
      case b: True
      then have "to_string_nat b = [digit_char b]"
        by (simp add: to_string_nat.simps [of b])
      with sa "1.prems" have "digit_char a = digit_char b" by simp
      with True b show ?thesis by (rule digit_char_inj)
    next
      case False
      then have "to_string_nat b = to_string_nat (b div 10) @ [digit_char (b mod 10)]"
        by (simp add: to_string_nat.simps [of b])
      with sa "1.prems" have "to_string_nat (b div 10) = []"
        by (metis append_is_Nil_conv butlast.simps(2) butlast_snoc)
      with to_string_nat_nonempty show ?thesis by blast
    qed
  next
    case False
    then have sa: "to_string_nat a = to_string_nat (a div 10) @ [digit_char (a mod 10)]"
      by (simp add: to_string_nat.simps [of a])
    show ?thesis
    proof (cases "b < 10")
      case True
      then have "to_string_nat b = [digit_char b]"
        by (simp add: to_string_nat.simps [of b])
      with sa "1.prems" have "to_string_nat (a div 10) = []"
        by (metis append_is_Nil_conv butlast.simps(2) butlast_snoc)
      with to_string_nat_nonempty show ?thesis by blast
    next
      case b: False
      then have "to_string_nat b = to_string_nat (b div 10) @ [digit_char (b mod 10)]"
        by (simp add: to_string_nat.simps [of b])
      with sa "1.prems" have hi: "to_string_nat (a div 10) = to_string_nat (b div 10)"
        and lo: "digit_char (a mod 10) = digit_char (b mod 10)"
        by simp_all
      from 1 (1) [OF False hi] have "a div 10 = b div 10" .
      moreover have "a mod 10 = b mod 10"
        by (rule digit_char_inj [OF _ _ lo]) simp_all
      ultimately show ?thesis
        by (metis div_mult_mod_eq)
    qed
  qed
qed

lemma separated_prefix:
  "xs @ c # r = ys @ c # r' \<Longrightarrow> c \<notin> set xs \<Longrightarrow> c \<notin> set ys \<Longrightarrow> xs = ys"
proof (induction xs arbitrary: ys)
  case Nil
  then show ?case by (cases ys) auto
next
  case (Cons x xs)
  then show ?case by (cases ys) auto
qed

lemma to_string_separated:
  assumes "0 \<le> a" "0 \<le> b" "a \<noteq> b"
  shows "to_string a @ '' - '' @ r \<noteq> to_string b @ '' - '' @ r'"
proof
  assume eq: "to_string a @ '' - '' @ r = to_string b @ '' - '' @ r'"
  have sp: "CHR '' '' \<notin> set (to_string_nat n)" for n
    using to_string_nat_digits [of n] by auto
  from assms have ts: "to_string a = to_string_nat (nat a)" "to_string b = to_string_nat (nat b)"
    by (simp_all add: to_string_def)
  from eq have "to_string_nat (nat a) @ CHR '' '' # (''- '' @ r) =
                to_string_nat (nat b) @ CHR '' '' # (''- '' @ r')"
    unfolding ts by simp
  from separated_prefix [OF this sp sp] have "nat a = nat b"
    by (rule to_string_nat_inj)
  with assms show False by simp
qed

lemma query_then_print:
  assumes n: "ncalls w = 3" and reach: "\<forall>k<6. throws E k = None"
  shows "block (lib E (Set_callback_mode_all PARAM) # lib E (Query_param_all rid) #
                lib E (Recv_all 2000) #
                for_motors (arm_motors E) (\<lambda>motor. cout (f motor)) #
                for_motors (gripper_motors E) (\<lambda>motor. cout (g motor)) # rest) w =
         block rest
           (w\<lparr>ncalls := 6,
              trace := trace w @
                [Call (Set_callback_mode_all PARAM), Call (Query_param_all rid)] @
                Call (Recv_all 2000) #
                map (\<lambda>motor. Cout (f motor)) (arm_motors E 6) @
                map (\<lambda>motor. Cout (g motor)) (gripper_motors E 6)\<rparr>)"
proof -
  from reach have t: "throws E 3 = None" "throws E 4 = None" "throws E 5 = None"
    by simp_all
  show ?thesis
    by (simp add: lib_def for_motors_cout n t)
qed

lemma initialize_reached:
  assumes "\<forall>k<6. throws E k = None"
  shows "fst (initialize E args \<lparr>trace = [], ncalls = 0\<rparr>) = None"
    and "ncalls (snd (initialize E args \<lparr>trace = [], ncalls = 0\<rparr>)) = 3"
proof -
  have "\<forall>k<length (initialize_calls args).
          throws E (ncalls \<lparr>trace = [], ncalls = 0\<rparr> + k) = None"
    using assms by (simp add: initialize_calls_def)
  from implements_ok [OF implements_initialize this]
  show "fst (initialize E args \<lparr>trace = [], ncalls = 0\<rparr>) = None"
    and "ncalls (snd (initialize E args \<lparr>trace = [], ncalls = 0\<rparr>)) = 3"
    by (simp_all add: initialize_calls_def)
qed

lemma query_main_displays:
  assumes args: "\<not> bad_argc args" and reach: "\<forall>k<6. throws E k = None"
  shows "\<exists>pre post. snd (query_control_mode_main E prog args) =
           pre @ Call (Recv_all 2000) #
           map (\<lambda>motor. Cout (motor_line E ''Arm'' motor (control_mode_code_query E motor)))
               (arm_motors E 6) @
           map (\<lambda>motor. Cout (motor_line E ''Gripper'' motor (control_mode_code_query E motor)))
               (gripper_motors E 6) @ post"
proof -
  let ?w0 = "\<lparr>trace = [], ncalls = 0\<rparr>"
  define w1 where "w1 = snd (initialize E args ?w0)"
  define shown where "shown =
      map (\<lambda>motor. Cout (motor_line E ''Arm'' motor (control_mode_code_query E motor)))
          (arm_motors E 6) @
      map (\<lambda>motor. Cout (motor_line E ''Gripper'' motor (control_mode_code_query E motor)))
          (gripper_motors E 6)"
  define w2 where "w2 = w1\<lparr>ncalls := 6, trace := trace w1 @
      [Call (Set_callback_mode_all PARAM), Call (Query_param_all (CTRL_MODE E))] @
      Call (Recv_all 2000) # shown\<rparr>"
  from initialize_reached [OF reach] have i: "fst (initialize E args ?w0) = None"
    and n: "ncalls w1 = 3"
    by (simp_all add: w1_def)
  have body: "query_control_mode_body E args =
      block (initialize E args #
             lib E (Set_callback_mode_all PARAM) # lib E (Query_param_all (CTRL_MODE E)) #
             lib E (Recv_all 2000) #
             for_motors (arm_motors E)
               (\<lambda>motor. cout (motor_line E ''Arm'' motor (control_mode_code_query E motor))) #
             for_motors (gripper_motors E)
               (\<lambda>motor. cout (motor_line E ''Gripper'' motor (control_mode_code_query E motor))) #
             turn_off_motor E)"
    by (simp add: query_control_mode_body_def)
  have "query_control_mode_body E args ?w0 = block (turn_off_motor E) w2"
    unfolding body
    by (simp only: block_cons_ok [where s = "initialize E args" and w = ?w0, OF i]
        w1_def [symmetric] query_then_print [OF n reach] w2_def shown_def)
  moreover from implements_grows [OF implements_turn_off_motor, of E w2]
  obtain tr where "trace (snd (block (turn_off_motor E) w2)) = trace w2 @ tr" ..
  moreover from try_catch_trace [of "query_control_mode_body E args"]
  obtain tr' where "snd (try_catch (query_control_mode_body E args)) =
      trace (snd (query_control_mode_body E args ?w0)) @ tr'" ..
  ultimately have "snd (query_control_mode_main E prog args) =
      (trace w1 @ [Call (Set_callback_mode_all PARAM), Call (Query_param_all (CTRL_MODE E))]) @
      Call (Recv_all 2000) #
      map (\<lambda>motor. Cout (motor_line E ''Arm'' motor (control_mode_code_query E motor)))
          (arm_motors E 6) @
      map (\<lambda>motor. Cout (motor_line E ''Gripper'' motor (control_mode_code_query E motor)))
          (gripper_motors E 6) @ (tr @ tr')"
    using args by (simp add: query_control_mode_main_def w2_def shown_def)
  then show ?thesis
    by blast
qed

lemma implements_set_after_query:
  "implements E
     (block ([cout b, cin v,
              (if c then block [cout d, lib E (Write_param_all (CTRL_MODE E) (of_int v)),
                                lib E (Recv_all 2000)]
               else cout e),
              cout f, print_control_mode E, cout g] @ turn_off_motor E))
     ((if c then write_calls E v else []) @ query_calls E @ turn_off_calls)"
  unfolding append_Cons append_Nil
  apply (rule implements_silent [OF implements_cout])
  apply (rule implements_silent [OF implements_cin])
  apply (rule implements_cons [OF implements_if [OF implements_write implements_cout]])
  apply (rule implements_silent [OF implements_cout])
  apply (rule implements_cons [OF implements_print_control_mode])
  apply (rule implements_silent [OF implements_cout])
  apply (rule implements_turn_off_motor)
  done

lemma print_control_mode_reached:
  assumes n: "ncalls w = 3" and reach: "\<forall>k<6. throws E k = None"
  shows "print_control_mode E w =
     (None,
      w\<lparr>ncalls := 6,
        trace := trace w @
          [Call (Set_callback_mode_all PARAM), Call (Query_param_all (CTRL_MODE E))] @
          Call (Recv_all 2000) #
          map (\<lambda>motor. Cout (motor_line E ''Arm'' motor (control_mode_code_set E motor)))
              (arm_motors E 6) @
          map (\<lambda>motor. Cout (motor_line E ''Gripper'' motor (control_mode_code_set E motor)))
              (gripper_motors E 6)\<rparr>)"
  unfolding print_control_mode_def query_then_print [OF n reach] by simp

lemma set_main_displays:
  assumes args: "\<not> bad_argc args" and reach: "\<forall>k<6. throws E k = None"
  shows "\<exists>pre post. snd (set_control_mode_main E prog args v) =
           pre @ Call (Recv_all 2000) #
           map (\<lambda>motor. Cout (motor_line E ''Arm'' motor (control_mode_code_set E motor)))
               (arm_motors E 6) @
           map (\<lambda>motor. Cout (motor_line E ''Gripper'' motor (control_mode_code_set E motor)))
               (gripper_motors E 6) @ post"
proof -
  let ?w0 = "\<lparr>trace = [], ncalls = 0\<rparr>"
  define s2 where "s2 = cout (''=== Previous control modes === '' @ [CHR 0x0A])"
  define rest where "rest =
      [cout (''Target Control Mode (int - '' @ to_string (min_mode_value E) @
              '' < value < '' @ to_string (max_mode_value E) @ ''): ''),
        cin v,
        (if target_control_mode_valid E v
         then block
           [cout (''Setting control modes to: '' @ to_string v @
                  GetMotorControlModeString E v),
            lib E (Write_param_all (CTRL_MODE E) (of_int v)),
            lib E (Recv_all 2000)]
         else cout (''Invalid control mode value received: '' @
                    to_string v @ [CHR 0x0A])),
        cout (''=== Current control modes === '' @ [CHR 0x0A]),
        print_control_mode E,
        cout (''Disabling motors'' @ [CHR 0x0A])]
       @ turn_off_motor E"
  define w1 where "w1 = snd (initialize E args ?w0)"
  define w2 where "w2 = snd (s2 w1)"
  define w3 where "w3 = snd (print_control_mode E w2)"
  have body: "set_control_mode_body E args v =
      block (initialize E args # s2 # print_control_mode E # rest)"
    by (simp add: set_control_mode_body_def s2_def rest_def)
  from initialize_reached [OF reach] have i: "fst (initialize E args ?w0) = None"
    and n1: "ncalls w1 = 3"
    by (simp_all add: w1_def)
  have 2: "fst (s2 w1) = None" and n2: "ncalls w2 = 3"
    using n1 by (simp_all add: s2_def w2_def cout_def)
  note p = print_control_mode_reached [OF n2 reach]
  have 3: "fst (print_control_mode E w2) = None"
    by (simp add: p)
  have "set_control_mode_body E args v ?w0 = block rest w3"
    unfolding body using i 2 3
    by (simp only: block_cons_ok w1_def [symmetric] w2_def [symmetric] w3_def [symmetric])
  moreover have "\<exists>tr. trace (snd (block rest w3)) = trace w3 @ tr"
    unfolding rest_def by (rule implements_grows [OF implements_set_after_query])
  then obtain tr where "trace (snd (block rest w3)) = trace w3 @ tr" ..
  moreover from try_catch_trace [of "set_control_mode_body E args v"]
  obtain tr' where "snd (try_catch (set_control_mode_body E args v)) =
      trace (snd (set_control_mode_body E args v ?w0)) @ tr'" ..
  ultimately have "snd (set_control_mode_main E prog args v) =
      (trace w2 @ [Call (Set_callback_mode_all PARAM), Call (Query_param_all (CTRL_MODE E))]) @
      Call (Recv_all 2000) #
      map (\<lambda>motor. Cout (motor_line E ''Arm'' motor (control_mode_code_set E motor)))
          (arm_motors E 6) @
      map (\<lambda>motor. Cout (motor_line E ''Gripper'' motor (control_mode_code_set E motor)))
          (gripper_motors E 6) @ (tr @ tr')"
    using args by (simp add: set_control_mode_main_def w3_def p)
  then show ?thesis
    by blast
qed

text \<open>
  Claim C10, as amended. In a run that reaches the first display (the six library calls
  before it return), each program prints, right after \<^verbatim>\<open>recv_all(2000)\<close>, one line for
  every arm motor and then one for every gripper motor the library holds at that
  moment; \<^verbatim>\<open>query_control_mode\<close> computes the code in the line by rounding the stored
  value before it narrows it to 8 bits, \<^verbatim>\<open>set_control_mode\<close> by narrowing it directly,
  which truncates. For a motor whose stored value \<open>x\<close> satisfies \<open>0 \<le> x < 255.5\<close> and has a
  fractional part of at least one half, the line of the query-only program shows the
  code \<open>\<lfloor>x\<rfloor> + 1\<close> with that code's name and the line of the query-and-set program shows
  \<open>\<lfloor>x\<rfloor>\<close> with its name, and the two lines are different texts. The bounds keep both
  conversions to \<^verbatim>\<open>uint8_t\<close> inside the values the language defines them for; without
  them the two programs can display the same code.
\<close>

theorem displayed_codes_differ:
  assumes args: "\<not> bad_argc args"
    and reach: "\<forall>k<6. throws E k = None"
    and x: "x = get_param motor (CTRL_MODE E)"
    and range: "0 \<le> x" "x < 511 / 2"
    and half: "1 / 2 \<le> frac x"
  shows "(\<exists>pre post. snd (query_control_mode_main E prog args) =
            pre @ Call (Recv_all 2000) #
            map (\<lambda>motor. Cout (motor_line E ''Arm'' motor (control_mode_code_query E motor)))
                (arm_motors E 6) @
            map (\<lambda>motor. Cout (motor_line E ''Gripper'' motor (control_mode_code_query E motor)))
                (gripper_motors E 6) @ post) \<and>
         (\<exists>pre post. snd (set_control_mode_main E prog args v) =
            pre @ Call (Recv_all 2000) #
            map (\<lambda>motor. Cout (motor_line E ''Arm'' motor (control_mode_code_set E motor)))
                (arm_motors E 6) @
            map (\<lambda>motor. Cout (motor_line E ''Gripper'' motor (control_mode_code_set E motor)))
                (gripper_motors E 6) @ post) \<and>
         motor_line E label motor (control_mode_code_query E motor) =
           label @ '' Motor: '' @ to_string (uint (get_send_can_id motor)) @
           '' Motor Control Mode: '' @ to_string (\<lfloor>x\<rfloor> + 1) @ '' - '' @
           GetMotorControlModeString E (\<lfloor>x\<rfloor> + 1) @ ''\<newline>'' \<and>
         motor_line E label motor (control_mode_code_set E motor) =
           label @ '' Motor: '' @ to_string (uint (get_send_can_id motor)) @
           '' Motor Control Mode: '' @ to_string \<lfloor>x\<rfloor> @ '' - '' @
           GetMotorControlModeString E \<lfloor>x\<rfloor> @ ''\<newline>'' \<and>
         motor_line E label motor (control_mode_code_query E motor) \<noteq>
         motor_line E label motor (control_mode_code_set E motor)"
proof -
  have "x = of_int \<lfloor>x\<rfloor> + frac x"
    by (simp add: frac_def)
  with range half have "of_int \<lfloor>x\<rfloor> < (255 :: real)"
    by linarith
  then have up: "\<lfloor>x\<rfloor> + 1 < 256" by linarith
  from range have lo: "0 \<le> \<lfloor>x\<rfloor> + 1" and fl: "0 \<le> \<lfloor>x\<rfloor>" by simp_all
  have q: "uint (control_mode_code_query E motor) = \<lfloor>x\<rfloor> + 1"
    unfolding control_mode_code_query_def x [symmetric] std_round_half_up [OF range(1) half]
    using lo up by (rule static_cast_uint8_of_int)
  from range have s: "uint (control_mode_code_set E motor) = \<lfloor>x\<rfloor>"
    unfolding control_mode_code_set_def x [symmetric]
    by (intro static_cast_uint8_floor) simp_all
  have ql: "motor_line E label motor (control_mode_code_query E motor) =
           label @ '' Motor: '' @ to_string (uint (get_send_can_id motor)) @
           '' Motor Control Mode: '' @ to_string (\<lfloor>x\<rfloor> + 1) @ '' - '' @
           GetMotorControlModeString E (\<lfloor>x\<rfloor> + 1) @ ''\<newline>''"
    by (simp add: motor_line_def q endl_def)
  have sl: "motor_line E label motor (control_mode_code_set E motor) =
           label @ '' Motor: '' @ to_string (uint (get_send_can_id motor)) @
           '' Motor Control Mode: '' @ to_string \<lfloor>x\<rfloor> @ '' - '' @
           GetMotorControlModeString E \<lfloor>x\<rfloor> @ ''\<newline>''"
    by (simp add: motor_line_def s endl_def)
  have "to_string (\<lfloor>x\<rfloor> + 1) @ '' - '' @ GetMotorControlModeString E (\<lfloor>x\<rfloor> + 1) @ ''\<newline>'' \<noteq>
        to_string \<lfloor>x\<rfloor> @ '' - '' @ GetMotorControlModeString E \<lfloor>x\<rfloor> @ ''\<newline>''"
    by (rule to_string_separated [OF lo fl]) simp
  then have ne: "motor_line E label motor (control_mode_code_query E motor) \<noteq>
                 motor_line E label motor (control_mode_code_set E motor)"
    by (simp add: ql sl)
  from query_main_displays [OF args reach, of prog]
    set_main_displays [OF args reach, of prog v] ql sl ne
  show ?thesis by (intro conjI)
qed

theorem displayed_codes_differ_witness:
  "Cout ''Gripper Motor: 8 Motor Control Mode: 2 - POS_VEL\<newline>''
     \<in> set (snd (query_control_mode_main (example_env no_fault) ''query_control_mode'' [''can0''])) \<and>
   Cout ''Gripper Motor: 8 Motor Control Mode: 1 - MIT\<newline>''
     \<in> set (snd (set_control_mode_main (example_env no_fault) ''set_control_mode'' [''can0''] 0))"
proof -
  let ?E = "example_env no_fault"
  let ?m = "\<lparr>get_send_can_id = 0x08 :: uint32, get_param = (\<lambda>rid. 8 / 5 :: real)\<rparr>"
  have reach: "\<forall>k<6. throws ?E k = None"
    by (simp add: example_env_simps no_fault_def)
  have x: "(8 / 5 :: real) = get_param ?m (CTRL_MODE ?E)"
    by simp
  have fl: "\<lfloor>8 / 5 :: real\<rfloor> = 1"
    by (simp add: floor_unique)
  then have half: "1 / 2 \<le> frac (8 / 5 :: real)"
    by (simp add: frac_def)
  have range: "(0 :: real) \<le> 8 / 5" "(8 / 5 :: real) < 511 / 2"
    by simp_all
  have shown: "gripper_motors ?E 6 = [?m]"
    by (simp add: example_env_def)
  have names: "GetMotorControlModeString ?E = example_mode_name"
    by (simp add: example_env_def)
  have digits: "to_string 1 = ''1''" "to_string 2 = ''2''" "to_string 8 = ''8''"
    by (simp_all add: to_string_def to_string_nat.simps digit_char_def)
  note inst = displayed_codes_differ [OF example_args(1) reach x range half,
      where label = "''Gripper''"]
  from inst [where prog = "''query_control_mode''"]
  obtain pre post where
    "snd (query_control_mode_main ?E ''query_control_mode'' [''can0'']) =
       pre @ Call (Recv_all 2000) #
       map (\<lambda>motor. Cout (motor_line ?E ''Arm'' motor (control_mode_code_query ?E motor)))
           (arm_motors ?E 6) @
       map (\<lambda>motor. Cout (motor_line ?E ''Gripper'' motor (control_mode_code_query ?E motor)))
           (gripper_motors ?E 6) @ post"
    by blast
  moreover from inst [where prog = "''query_control_mode''"]
  have "motor_line ?E ''Gripper'' ?m (control_mode_code_query ?E ?m) =
        ''Gripper Motor: 8 Motor Control Mode: 2 - POS_VEL\<newline>''"
    by (simp add: fl names digits example_mode_name_def)
  ultimately have q: "Cout ''Gripper Motor: 8 Motor Control Mode: 2 - POS_VEL\<newline>''
     \<in> set (snd (query_control_mode_main ?E ''query_control_mode'' [''can0'']))"
    by (simp add: shown)
  from inst [where prog = "''set_control_mode''" and v = 0]
  obtain pre post where
    "snd (set_control_mode_main ?E ''set_control_mode'' [''can0''] 0) =
       pre @ Call (Recv_all 2000) #
       map (\<lambda>motor. Cout (motor_line ?E ''Arm'' motor (control_mode_code_set ?E motor)))
           (arm_motors ?E 6) @
       map (\<lambda>motor. Cout (motor_line ?E ''Gripper'' motor (control_mode_code_set ?E motor)))
           (gripper_motors ?E 6) @ post"
    by blast
  moreover from inst [where prog = "''set_control_mode''"]
  have "motor_line ?E ''Gripper'' ?m (control_mode_code_set ?E ?m) =
        ''Gripper Motor: 8 Motor Control Mode: 1 - MIT\<newline>''"
    by (simp add: fl names digits example_mode_name_def)
  ultimately have s: "Cout ''Gripper Motor: 8 Motor Control Mode: 1 - MIT\<newline>''
     \<in> set (snd (set_control_mode_main ?E ''set_control_mode'' [''can0''] 0))"
    by (simp add: shown)
  from q s show ?thesis ..
qed

lemma reporting_simps:
  "minMode (reporting x E) = minMode E" "maxMode (reporting x E) = maxMode E"
  "CTRL_MODE (reporting x E) = CTRL_MODE E" "throws (reporting x E) = throws E"
  "GetMotorControlModeString (reporting x E) = GetMotorControlModeString E"
  "arm_motors (reporting x E) = arm_motors E"
  "uint8_of_unrepresentable (reporting x E) = uint8_of_unrepresentable E"
  "gripper_motors (reporting x E) k = [\<lparr>get_send_can_id = 0x08, get_param = (\<lambda>rid. x)\<rparr>]"
  by (simp_all add: reporting_def)

lemma example_listing:
  "available_modes (reporting x (example_env no_fault))
     (static_cast_size_t (minMode (reporting x (example_env no_fault))) + 1)
     (static_cast_size_t (maxMode (reporting x (example_env no_fault)))) =
   [''1:MIT\<newline>'', ''2:POS_VEL\<newline>'', ''3:VEL\<newline>'', ''4:POS_FORCE\<newline>'']"
proof -
  let ?E = "reporting x (example_env no_fault)"
  have enum: "0 \<le> minMode ?E" "minMode ?E + 1 < 2 ^ 64" "0 \<le> maxMode ?E" "maxMode ?E < 2 ^ 64"
    by (simp_all add: reporting_simps example_env_simps)
  have range: "[minMode ?E + 1..maxMode ?E - 1] = [1, 2, 3, 4]"
    by (simp add: reporting_simps example_env_simps upto_rec1)
  have names: "GetMotorControlModeString ?E = example_mode_name"
    by (simp add: reporting_simps example_env_def)
  have digits: "to_string 1 = ''1''" "to_string 2 = ''2''" "to_string 3 = ''3''"
    "to_string 4 = ''4''"
    by (simp_all add: to_string_def to_string_nat.simps digit_char_def)
  show ?thesis
    unfolding available_modes_enum [OF enum] range
    by (simp add: mode_line_def names digits example_mode_name_def)
qed

lemma gripper_lines_append:
  "gripper_lines (xs @ ys) = gripper_lines xs @ gripper_lines ys"
  by (induction xs rule: gripper_lines.induct) simp_all

lemma gripper_lines_arm:
  "gripper_lines (map (\<lambda>motor. Cout (motor_line E ''Arm'' motor (c motor))) ms) = []"
  by (induction ms) (simp_all add: motor_line_def)

lemma gripper_prefix: "take 14 (motor_line E ''Gripper'' motor c) = ''Gripper Motor:''"
  by (simp add: motor_line_def)

lemma example_gripper_lines:
  "gripper_lines (snd (query_control_mode_main (reporting x (example_env no_fault)) prog [''can0''])) =
     [motor_line (reporting x (example_env no_fault)) ''Gripper''
        \<lparr>get_send_can_id = 0x08, get_param = (\<lambda>rid. x)\<rparr>
        (control_mode_code_query (reporting x (example_env no_fault))
           \<lparr>get_send_can_id = 0x08, get_param = (\<lambda>rid. x)\<rparr>)]"
  "gripper_lines (snd (set_control_mode_main (reporting x (example_env no_fault)) prog [''can0''] 0)) =
     [motor_line (reporting x (example_env no_fault)) ''Gripper''
        \<lparr>get_send_can_id = 0x08, get_param = (\<lambda>rid. x)\<rparr>
        (control_mode_code_set (reporting x (example_env no_fault))
           \<lparr>get_send_can_id = 0x08, get_param = (\<lambda>rid. x)\<rparr>),
      motor_line (reporting x (example_env no_fault)) ''Gripper''
        \<lparr>get_send_can_id = 0x08, get_param = (\<lambda>rid. x)\<rparr>
        (control_mode_code_set (reporting x (example_env no_fault))
           \<lparr>get_send_can_id = 0x08, get_param = (\<lambda>rid. x)\<rparr>)]"
proof -
  let ?E = "reporting x (example_env no_fault)"
  have E: "throws ?E = (\<lambda>k. None)"
    "gripper_motors ?E = (\<lambda>k. [\<lparr>get_send_can_id = 0x08, get_param = (\<lambda>rid. x)\<rparr>])"
    by (simp_all add: reporting_def example_env_def no_fault_def fun_eq_iff)
  have invalid: "\<not> target_control_mode_valid ?E 0"
    by (simp add: target_control_mode_valid_def min_mode_value_def static_cast_int32_def
        reporting_simps example_env_simps)
  note step = run_simps E example_listing gripper_lines_append gripper_lines_arm
    gripper_prefix endl_def
  show "gripper_lines (snd (query_control_mode_main ?E prog [''can0''])) =
     [motor_line ?E ''Gripper'' \<lparr>get_send_can_id = 0x08, get_param = (\<lambda>rid. x)\<rparr>
        (control_mode_code_query ?E \<lparr>get_send_can_id = 0x08, get_param = (\<lambda>rid. x)\<rparr>)]"
    by (simp add: step)
  show "gripper_lines (snd (set_control_mode_main ?E prog [''can0''] 0)) =
     [motor_line ?E ''Gripper'' \<lparr>get_send_can_id = 0x08, get_param = (\<lambda>rid. x)\<rparr>
        (control_mode_code_set ?E \<lparr>get_send_can_id = 0x08, get_param = (\<lambda>rid. x)\<rparr>),
      motor_line ?E ''Gripper'' \<lparr>get_send_can_id = 0x08, get_param = (\<lambda>rid. x)\<rparr>
        (control_mode_code_set ?E \<lparr>get_send_can_id = 0x08, get_param = (\<lambda>rid. x)\<rparr>)]"
    using invalid by (simp add: step)
qed

lemma example_codes_zero:
  "control_mode_code_query (reporting (- (1 / 2)) (example_env no_fault))
     \<lparr>get_send_can_id = 0x08, get_param = (\<lambda>rid. - (1 / 2))\<rparr> = 0"
  "control_mode_code_set (reporting (- (1 / 2)) (example_env no_fault))
     \<lparr>get_send_can_id = 0x08, get_param = (\<lambda>rid. - (1 / 2))\<rparr> = 0"
  "control_mode_code_query (reporting (601 / 2) (example_env no_fault))
     \<lparr>get_send_can_id = 0x08, get_param = (\<lambda>rid. 601 / 2)\<rparr> = 0"
  "control_mode_code_set (reporting (601 / 2) (example_env no_fault))
     \<lparr>get_send_can_id = 0x08, get_param = (\<lambda>rid. 601 / 2)\<rparr> = 0"
  "control_mode_code_query (reporting (- (2 / 5)) (example_env no_fault))
     \<lparr>get_send_can_id = 0x08, get_param = (\<lambda>rid. - (2 / 5))\<rparr> = 0"
  "control_mode_code_set (reporting (- (2 / 5)) (example_env no_fault))
     \<lparr>get_send_can_id = 0x08, get_param = (\<lambda>rid. - (2 / 5))\<rparr> = 0"
  by (simp_all add: control_mode_code_query_def control_mode_code_set_def static_cast_uint8_def
      std_round_def truncate_towards_zero_def reporting_def example_env_def ceiling_def)

lemma example_line_zero:
  "motor_line (reporting x (example_env no_fault)) ''Gripper''
     \<lparr>get_send_can_id = 0x08, get_param = p\<rparr> 0 =
   ''Gripper Motor: 8 Motor Control Mode: 0 - UNKNOWN\<newline>''"
proof -
  have "to_string 0 = ''0''" "to_string 8 = ''8''"
    by (simp_all add: to_string_def to_string_nat.simps digit_char_def)
  then show ?thesis
    by (simp add: motor_line_def reporting_simps example_env_def example_mode_name_def endl_def)
qed

text \<open>
  The claim does not hold for every stored value with a fractional part of at least one
  half. On the example environment, where a conversion the language leaves undefined
  yields 0, both programs display the code 0 for the gripper when it stores \<open>-0.5\<close>
  (rounded to \<open>-1\<close>, outside \<^verbatim>\<open>uint8_t\<close>; truncated to 0) and when it stores \<open>300.5\<close>
  (both results outside \<^verbatim>\<open>uint8_t\<close>). For the stored value \<open>-0.4\<close>, whose fractional
  part \<open>x - \<lfloor>x\<rfloor>\<close> is \<open>0.6\<close>, no undefined conversion is involved: the value rounds to 0
  and truncates to 0. \<^verbatim>\<open>set_control_mode\<close> prints the gripper's line twice, once for
  each of its two displays.
\<close>

theorem displayed_codes_equal_counterexample:
  "1 / 2 \<le> frac (- (1 / 2) :: real) \<and>
   gripper_lines (snd (query_control_mode_main (reporting (- (1 / 2)) (example_env no_fault))
       ''query_control_mode'' [''can0''])) =
     [''Gripper Motor: 8 Motor Control Mode: 0 - UNKNOWN\<newline>''] \<and>
   gripper_lines (snd (set_control_mode_main (reporting (- (1 / 2)) (example_env no_fault))
       ''set_control_mode'' [''can0''] 0)) =
     [''Gripper Motor: 8 Motor Control Mode: 0 - UNKNOWN\<newline>'',
      ''Gripper Motor: 8 Motor Control Mode: 0 - UNKNOWN\<newline>''] \<and>
   1 / 2 \<le> frac (601 / 2 :: real) \<and>
   gripper_lines (snd (query_control_mode_main (reporting (601 / 2) (example_env no_fault))
       ''query_control_mode'' [''can0''])) =
     [''Gripper Motor: 8 Motor Control Mode: 0 - UNKNOWN\<newline>''] \<and>
   gripper_lines (snd (set_control_mode_main (reporting (601 / 2) (example_env no_fault))
       ''set_control_mode'' [''can0''] 0)) =
     [''Gripper Motor: 8 Motor Control Mode: 0 - UNKNOWN\<newline>'',
      ''Gripper Motor: 8 Motor Control Mode: 0 - UNKNOWN\<newline>''] \<and>
   1 / 2 \<le> frac (- (2 / 5) :: real) \<and>
   gripper_lines (snd (query_control_mode_main (reporting (- (2 / 5)) (example_env no_fault))
       ''query_control_mode'' [''can0''])) =
     [''Gripper Motor: 8 Motor Control Mode: 0 - UNKNOWN\<newline>''] \<and>
   gripper_lines (snd (set_control_mode_main (reporting (- (2 / 5)) (example_env no_fault))
       ''set_control_mode'' [''can0''] 0)) =
     [''Gripper Motor: 8 Motor Control Mode: 0 - UNKNOWN\<newline>'',
      ''Gripper Motor: 8 Motor Control Mode: 0 - UNKNOWN\<newline>'']"
proof -
  have "\<lfloor>- (1 / 2) :: real\<rfloor> = - 1" "\<lfloor>601 / 2 :: real\<rfloor> = 300" "\<lfloor>- (2 / 5) :: real\<rfloor> = - 1"
    by (simp_all add: floor_unique)
  then have f: "1 / 2 \<le> frac (- (1 / 2) :: real)" "1 / 2 \<le> frac (601 / 2 :: real)"
    "1 / 2 \<le> frac (- (2 / 5) :: real)"
    by (simp_all add: frac_def)
  show ?thesis
    unfolding example_gripper_lines example_codes_zero example_line_zero
    using f by (simp only: simp_thms)
qed

end
